theory Spec2Isabelle
  imports Main
begin

section \<open>The debate orchestrator: data model\<close>

text \<open>
  The repository holds two near-identical programs. Definitions with the suffix
  \<open>_v1\<close> embed \<^verbatim>\<open>src/main.go\<close> (its \<^verbatim>\<open>LLMClient.Generate\<close> takes a model and one
  prompt string, \<^verbatim>\<open>MaxHistory = 10\<close>); definitions with the suffix \<open>_v2\<close> embed
  \<^verbatim>\<open>src/unnamed/part_000\<close> (its \<^verbatim>\<open>Generate\<close> takes a model, a system string and a
  prompt string, \<^verbatim>\<open>MaxHistory = 100\<close>; this is the program that \<^verbatim>\<open>main_test.go\<close>
  exercises). Definitions without a suffix are shared: the source text is the same in
  both files.
\<close>

record Message =
  Role :: string
  Content :: string

record DebateRound =
  Challenger :: string
  Defender :: string

record DebateConfig =
  Rounds :: int
  Duration :: string
  InputFile :: string
  OutputFile :: string

record LLMConfig =
  ChallengerModel :: string
  DefenderModel :: string
  ChalPrompt :: string
  DefPrompt :: string

definition RoleUser :: string where "RoleUser = ''user''"
definition RoleSystem :: string where "RoleSystem = ''system''"
definition RoleChallenger :: string where "RoleChallenger = ''challenger''"
definition RoleDefender :: string where "RoleDefender = ''defender''"
definition RoleSummarizer :: string where "RoleSummarizer = ''summarizer''"

definition MaxHistory_v1 :: int where "MaxHistory_v1 = 10"
definition MaxHistory_v2 :: int where "MaxHistory_v2 = 100"

text \<open>The line feed of Go's \<^verbatim>\<open>"\n"\<close>.\<close>

definition nl :: string where "nl = [CHR 0x0A]"

text \<open>
  A Go \<^verbatim>\<open>error\<close> value is its message; \<^verbatim>\<open>fmt.Errorf("ctx: %w", err)\<close> prefixes
  it. A run-time panic (index or slice bounds out of range) is a value of its own.
\<close>

datatype error = Err string | Panic string

fun wrap :: "string \<Rightarrow> error \<Rightarrow> error" where
  "wrap ctx (Err m) = Err (ctx @ '': '' @ m)"
| "wrap ctx (Panic m) = Panic m"

section \<open>The Ollama wrapper\<close>

text \<open>
  \<^verbatim>\<open>api.Client.Generate\<close> belongs to the Ollama library. It calls the callback once for
  every streamed response and then returns an error or nil, so one call of it is a list
  of response chunks together with an optional error. The callbacks of both programs
  always return nil, so they never cut the stream short.
\<close>

type_synonym api_reply = "string list \<times> error option"

record GenerateRequest_v1 =
  Model_v1 :: string
  Prompt_v1 :: string

text \<open>\<^verbatim>\<open>OllamaClient.Generate\<close> of \<^verbatim>\<open>src/main.go\<close>, lines 137 to 153.\<close>

definition Generate_v1 ::
  "(GenerateRequest_v1 \<Rightarrow> api_reply) \<Rightarrow> string \<Rightarrow> string \<Rightarrow> error + string" where
  "Generate_v1 api model prompt =
     (let (chunks, err) = api \<lparr>Model_v1 = model, Prompt_v1 = prompt\<rparr>;
          result = foldl (\<lambda>result resp. result @ resp) [] chunks
      in case err of
           Some e \<Rightarrow> Inl e
         | None \<Rightarrow> if result = [] then Inl (Err ''empty response'') else Inr result)"

text \<open>
  The request of \<^verbatim>\<open>src/unnamed/part_000\<close>; the three sampling options are the
  literals of the source, kept as text.
\<close>

record GenerateRequest_v2 =
  Model_v2 :: string
  System_v2 :: string
  Prompt_v2 :: string
  Stream_v2 :: bool
  Options_v2 :: "(string \<times> string) list"

text \<open>
  \<^verbatim>\<open>GenerateWithChannel\<close>, lines 141 to 174. Besides the result it sends the running
  chunk counter on the progress channel for every chunk and closes the channel on every
  path; the second component is what was sent before the close.
\<close>

definition GenerateWithChannel_v2 ::
  "(GenerateRequest_v2 \<Rightarrow> api_reply) \<Rightarrow> string \<Rightarrow> string \<Rightarrow> string
     \<Rightarrow> (error + string) \<times> nat list" where
  "GenerateWithChannel_v2 api model sys prompt =
     (let (chunks, err) = api \<lparr>Model_v2 = model, System_v2 = sys, Prompt_v2 = prompt,
             Stream_v2 = True,
             Options_v2 = [(''temperature'', ''0.7''), (''top_p'', ''0.9''),
                           (''max_tokens'', ''150'')]\<rparr>;
          (result, resultCount, sent) =
             foldl (\<lambda>(result, resultCount, sent) resp.
                       (result @ resp, Suc resultCount, sent @ [resultCount]))
                   ([], 0, []) chunks
      in case err of
           Some e \<Rightarrow> (Inl e, sent)
         | None \<Rightarrow> if result = [] then (Inl (Err ''empty response''), sent)
                   else (Inr result, sent))"

text \<open>
  \<^verbatim>\<open>Generate\<close>, lines 176 to 194: the goroutine that feeds the progress bar only
  consumes the channel, so the value returned is that of \<^verbatim>\<open>GenerateWithChannel\<close>.
\<close>

definition Generate_v2 ::
  "(GenerateRequest_v2 \<Rightarrow> api_reply) \<Rightarrow> string \<Rightarrow> string \<Rightarrow> string \<Rightarrow> error + string" where
  "Generate_v2 api model sys prompt = fst (GenerateWithChannel_v2 api model sys prompt)"

section \<open>The world outside the program\<close>

text \<open>
  What the program writes: the calls it made on its \<^verbatim>\<open>LLMClient\<close> (the record that
  \<^verbatim>\<open>fakeLLM\<close> keeps in \<^verbatim>\<open>main_test.go\<close>), the texts printed on standard output, and the
  files written.
\<close>

record 'q io =
  calls :: "'q list"
  stdout :: "string list"
  files :: "(string \<times> string) list"

text \<open>
  An implementation of the interface \<^verbatim>\<open>LLMClient\<close> answers a call with a text or an
  error; the answer may depend on the calls made before, which covers every
  deterministic client with a state of its own.
\<close>

type_synonym 'q client = "'q list \<Rightarrow> 'q \<Rightarrow> error + string"

definition callGenerate :: "'q client \<Rightarrow> 'q \<Rightarrow> 'q io \<Rightarrow> (error + string) \<times> 'q io" where
  "callGenerate client q s = (client (calls s) q, s\<lparr>calls := calls s @ [q]\<rparr>)"

record call_v1 =
  model_v1 :: string
  prompt_v1 :: string

record call_v2 =
  model_v2 :: string
  system_v2 :: string
  prompt_v2 :: string

text \<open>
  What the program reads from its environment. Each field stands for a library or
  system call that is not part of the repository:
  \<^item> \<open>readFile\<close>: \<^verbatim>\<open>os.ReadFile\<close>; \<open>writeFile\<close>: the error of \<^verbatim>\<open>os.WriteFile\<close>, if any;
  \<^item> \<open>clientFromEnvironment\<close>: the error of \<^verbatim>\<open>api.ClientFromEnvironment\<close>, if any;
  \<^item> \<open>trialElapsed\<close>: the nanoseconds that \<^verbatim>\<open>time.Since(start)\<close> measures around the
    trial round;
  \<^item> \<open>parseDuration\<close>: \<^verbatim>\<open>time.ParseDuration\<close>, in nanoseconds;
  \<^item> \<open>secondsQuotient total elapsed\<close>: the value of the Go expression
    \<^verbatim>\<open>int(total.Seconds() / elapsed.Seconds())\<close>, a division of two \<^verbatim>\<open>float64\<close> values
    converted to \<^verbatim>\<open>int\<close>, which \<open>float64Quotient\<close> below computes in binary64;
  \<^item> \<open>formatDuration\<close>: the text that \<^verbatim>\<open>%v\<close> prints for a \<^verbatim>\<open>time.Duration\<close>;
  \<^item> \<open>printErr out text\<close>: the error that \<^verbatim>\<open>fmt.Printf\<close> returns when it prints
    \<open>text\<close> after \<open>out\<close>, if any;
  \<^item> \<open>nowString out\<close>: \<^verbatim>\<open>time.Now().String()\<close> at that moment;
  \<^item> \<open>growCap old need\<close>: the capacity that the Go run time chooses when \<^verbatim>\<open>append\<close>
    has to move a slice of capacity \<open>old\<close> to hold \<open>need\<close> elements.
\<close>

record sys =
  readFile :: "string \<Rightarrow> error + string"
  writeFile :: "string \<Rightarrow> string \<Rightarrow> error option"
  clientFromEnvironment :: "error option"
  trialElapsed :: int
  parseDuration :: "string \<Rightarrow> error + int"
  secondsQuotient :: "int \<Rightarrow> int \<Rightarrow> int"
  formatDuration :: "int \<Rightarrow> string"
  printErr :: "string list \<Rightarrow> string \<Rightarrow> error option"
  nowString :: "string list \<Rightarrow> string"
  growCap :: "nat \<Rightarrow> nat \<Rightarrow> nat"

text \<open>
  The Ollama server as the wrapper sees it: its reply to a request, which may depend on
  the calls made before. \<^verbatim>\<open>NewOllamaClient\<close> turns it into an \<^verbatim>\<open>LLMClient\<close>.
\<close>

definition NewOllamaClient_v1 ::
  "(call_v1 list \<Rightarrow> GenerateRequest_v1 \<Rightarrow> api_reply) \<Rightarrow> call_v1 client" where
  "NewOllamaClient_v1 server = (\<lambda>before q. Generate_v1 (server before) (model_v1 q) (prompt_v1 q))"

definition NewOllamaClient_v2 ::
  "(call_v2 list \<Rightarrow> GenerateRequest_v2 \<Rightarrow> api_reply) \<Rightarrow> call_v2 client" where
  "NewOllamaClient_v2 server =
     (\<lambda>before q. Generate_v2 (server before) (model_v2 q) (system_v2 q) (prompt_v2 q))"

text \<open>The decimal text that \<^verbatim>\<open>%d\<close> prints for a number that is not negative.\<close>

fun decimal :: "nat \<Rightarrow> string" where
  "decimal n =
     (if n < 10 then [''0123456789'' ! n]
      else decimal (n div 10) @ [''0123456789'' ! (n mod 10)])"

declare decimal.simps [simp del]

definition showInt :: "int \<Rightarrow> string" where
  "showInt i = (if i < 0 then ''-'' @ decimal (nat (- i)) else decimal (nat i))"

section \<open>The debate of \<^verbatim>\<open>src/main.go\<close>\<close>

text \<open>
  \<^verbatim>\<open>trimHistory\<close>, lines 180 to 185. The slice expression panics when its lower bound
  \<^verbatim>\<open>len(history)-max\<close> exceeds the length, which is the case of a negative \<^verbatim>\<open>max\<close>.
  In \<^verbatim>\<open>src/main.go\<close> the result replaces \<^verbatim>\<open>history\<close>, which is afterwards only read and
  appended to, never written by index, so the slice is the list of its elements.
\<close>

definition trimHistory_v1 :: "Message list \<Rightarrow> int \<Rightarrow> error + Message list" where
  "trimHistory_v1 history max' =
     (if int (length history) \<le> max' then Inr history
      else if int (length history) - max' > int (length history)
           then Inl (Panic ''slice bounds out of range'')
           else Inr (drop (nat (int (length history) - max')) history))"

text \<open>\<^verbatim>\<open>runSingleRound\<close>, lines 187 to 193; the parameter \<^verbatim>\<open>role\<close> is not used.\<close>

definition runSingleRound_v1 ::
  "call_v1 client \<Rightarrow> string \<Rightarrow> string \<Rightarrow> Message list \<Rightarrow> string \<Rightarrow> call_v1 io
     \<Rightarrow> (error + string) \<times> call_v1 io" where
  "runSingleRound_v1 client model prompt history role s =
     (let fullPrompt =
            foldl (\<lambda>fullPrompt m. fullPrompt @ (Role m @ '': '' @ Content m @ nl))
                  (prompt @ nl) history
      in callGenerate client \<lparr>model_v1 = model, prompt_v1 = fullPrompt\<rparr> s)"

text \<open>
  One iteration of the loop of \<^verbatim>\<open>runDebateFlow\<close>, lines 161 to 175: it yields the new
  history and the round, or the error that ends the run.
\<close>

definition debateRound_v1 ::
  "call_v1 client \<Rightarrow> LLMConfig \<Rightarrow> Message list \<Rightarrow> call_v1 io
     \<Rightarrow> (error + Message list \<times> DebateRound) \<times> call_v1 io" where
  "debateRound_v1 client llm history s =
     (case trimHistory_v1 history MaxHistory_v1 of
        Inl e \<Rightarrow> (Inl e, s)
      | Inr history1 \<Rightarrow>
         (case runSingleRound_v1 client (ChallengerModel llm) (ChalPrompt llm) history1
                 RoleChallenger s of
            (Inl e, s1) \<Rightarrow> (Inl e, s1)
          | (Inr chal, s1) \<Rightarrow>
             (let history2 = history1 @ [\<lparr>Role = RoleChallenger, Content = chal\<rparr>]
              in case runSingleRound_v1 client (DefenderModel llm) (DefPrompt llm) history2
                        RoleDefender s1 of
                   (Inl e, s2) \<Rightarrow> (Inl e, s2)
                 | (Inr def, s2) \<Rightarrow>
                     (Inr (history2 @ [\<lparr>Role = RoleDefender, Content = def\<rparr>],
                           \<lparr>Challenger = chal, Defender = def\<rparr>), s2))))"

text \<open>
  The loop \<^verbatim>\<open>for i := 0; i < config.Rounds; i++\<close>, by the iterations left. It yields
  the variables \<^verbatim>\<open>history\<close> and \<^verbatim>\<open>rounds\<close> as they are when the loop is left, or the
  error that ended it.
\<close>

fun debateLoop_v1 ::
  "call_v1 client \<Rightarrow> LLMConfig \<Rightarrow> nat \<Rightarrow> Message list \<Rightarrow> DebateRound list \<Rightarrow> call_v1 io
     \<Rightarrow> (error + Message list \<times> DebateRound list) \<times> call_v1 io" where
  "debateLoop_v1 client llm 0 history rounds s = (Inr (history, rounds), s)"
| "debateLoop_v1 client llm (Suc n) history rounds s =
     (case debateRound_v1 client llm history s of
        (Inl e, s1) \<Rightarrow> (Inl e, s1)
      | (Inr (history1, r), s1) \<Rightarrow> debateLoop_v1 client llm n history1 (rounds @ [r]) s1)"

text \<open>\<^verbatim>\<open>runDebateFlow\<close>, lines 156 to 178.\<close>

definition runDebateFlow_v1 ::
  "call_v1 client \<Rightarrow> string \<Rightarrow> DebateConfig \<Rightarrow> LLMConfig \<Rightarrow> call_v1 io
     \<Rightarrow> (error + DebateRound list) \<times> call_v1 io" where
  "runDebateFlow_v1 client claim config llm s =
     (case debateLoop_v1 client llm (nat (Rounds config))
             [\<lparr>Role = RoleUser, Content = claim\<rparr>] [] s of
        (Inl e, s1) \<Rightarrow> (Inl e, s1)
      | (Inr (history, rounds), s1) \<Rightarrow> (Inr rounds, s1))"

text \<open>
  The loop of \<^verbatim>\<open>summarizeDebate\<close> (the same text in both files): \<open>i\<close> is the index of
  the first round of the list, \<open>fullText\<close> what has been assembled so far.
\<close>

fun summaryText :: "nat \<Rightarrow> DebateRound list \<Rightarrow> string \<Rightarrow> string" where
  "summaryText i [] fullText = fullText"
| "summaryText i (r # debate) fullText =
     summaryText (Suc i) debate
       (fullText @ (''### Round '' @ decimal (i + 1) @ nl @ ''Challenger: '' @ Challenger r @ nl
                    @ ''Defender: '' @ Defender r @ nl @ nl))"

definition summaryInstruction :: string where
  "summaryInstruction =
     ''Summarize the debate: top blind spots, opportunities, deadly assumption.''"

text \<open>\<^verbatim>\<open>summarizeDebate\<close>, lines 196 to 202.\<close>

definition summarizeDebate_v1 ::
  "call_v1 client \<Rightarrow> DebateRound list \<Rightarrow> string \<Rightarrow> call_v1 io \<Rightarrow> (error + string) \<times> call_v1 io" where
  "summarizeDebate_v1 client debate model s =
     runSingleRound_v1 client model summaryInstruction
       [\<lparr>Role = RoleSystem, Content = summaryText 0 debate []\<rparr>] RoleSummarizer s"

text \<open>
  \<^verbatim>\<open>estimateRounds\<close>, lines 248 to 265. The error of the final \<^verbatim>\<open>fmt.Printf\<close> is
  dropped by the source.
\<close>

definition estimateRounds_v1 ::
  "sys \<Rightarrow> call_v1 client \<Rightarrow> string \<Rightarrow> LLMConfig \<Rightarrow> string \<Rightarrow> call_v1 io
     \<Rightarrow> (error + int) \<times> call_v1 io" where
  "estimateRounds_v1 sys client claim llm duration s =
     (case runDebateFlow_v1 client claim
             \<lparr>Rounds = 1, Duration = [], InputFile = [], OutputFile = []\<rparr> llm s of
        (Inl e, s1) \<Rightarrow> (Inl e, s1)
      | (Inr trial, s1) \<Rightarrow>
         (let elapsed = trialElapsed sys
          in case parseDuration sys duration of
               Inl e \<Rightarrow> (Inl (wrap ''invalid duration'' e), s1)
             | Inr total' \<Rightarrow>
                (let rounds = secondsQuotient sys total' elapsed;
                     rounds = (if rounds < 1 then 1 else rounds)
                 in (Inr rounds,
                     s1\<lparr>stdout := stdout s1 @
                          [''Estimated '' @ showInt rounds @ '' rounds (1 round = ''
                           @ formatDuration sys elapsed @ '')'' @ nl]\<rparr>))))"

text \<open>The command-line flags with the defaults of \<^verbatim>\<open>addFlags\<close>, as cobra hands them over.\<close>

record flags =
  input_flag :: string
  output_flag :: string
  rounds_flag :: int
  duration_flag :: string
  challenger_flag :: string
  defender_flag :: string
  challenger_prompt_flag :: string
  defender_prompt_flag :: string

text \<open>
  \<^verbatim>\<open>mustLoadPrompt\<close>, \<^verbatim>\<open>parseFlags\<close> and \<^verbatim>\<open>loadInput\<close> (the same in both files); the
  warning that \<^verbatim>\<open>mustLoadPrompt\<close> prints on standard error is left out.
\<close>

definition mustLoadPrompt :: "sys \<Rightarrow> string \<Rightarrow> string \<Rightarrow> string" where
  "mustLoadPrompt sys path fallback =
     (if path = [] then fallback
      else case readFile sys path of Inl e \<Rightarrow> fallback | Inr data \<Rightarrow> data)"

definition parseFlags :: "sys \<Rightarrow> flags \<Rightarrow> error + DebateConfig \<times> LLMConfig" where
  "parseFlags sys f =
     (if input_flag f = [] \<or> output_flag f = [] then Inl (Err ''input and output required'')
      else Inr (\<lparr>Rounds = rounds_flag f, Duration = duration_flag f,
                 InputFile = input_flag f, OutputFile = output_flag f\<rparr>,
                \<lparr>ChallengerModel = challenger_flag f, DefenderModel = defender_flag f,
                 ChalPrompt = mustLoadPrompt sys (challenger_prompt_flag f)
                                ''You are the Challenger. Attack ruthlessly:'',
                 DefPrompt = mustLoadPrompt sys (defender_prompt_flag f)
                                ''You are the Defender. Represent the user:''\<rparr>))"

definition loadInput :: "sys \<Rightarrow> string \<Rightarrow> error + string" where
  "loadInput sys path =
     (case readFile sys path of
        Inl e \<Rightarrow> Inl (wrap ''reading input file'' e)
      | Inr data \<Rightarrow> Inr data)"

text \<open>\<^verbatim>\<open>runCLI\<close>, lines 83 to 126.\<close>

definition runCLI_v1 ::
  "sys \<Rightarrow> (call_v1 list \<Rightarrow> GenerateRequest_v1 \<Rightarrow> api_reply) \<Rightarrow> flags \<Rightarrow> call_v1 io
     \<Rightarrow> (error + unit) \<times> call_v1 io" where
  "runCLI_v1 sys server f s =
     (case parseFlags sys f of
        Inl e \<Rightarrow> (Inl e, s)
      | Inr (config, llm) \<Rightarrow>
         if Rounds config > 0 \<and> Duration config \<noteq> []
         then (Inl (Err ''--rounds and --duration cannot be used together''), s)
         else
          (case loadInput sys (InputFile config) of
             Inl e \<Rightarrow> (Inl e, s)
           | Inr input \<Rightarrow>
              (case clientFromEnvironment sys of
                 Some e \<Rightarrow> (Inl (wrap ''creating client'' e), s)
               | None \<Rightarrow>
                  (let llmClient = NewOllamaClient_v1 server
                   in case (if Rounds config = 0 \<and> Duration config \<noteq> []
                            then (case estimateRounds_v1 sys llmClient input llm
                                         (Duration config) s of
                                    (Inl e, s1) \<Rightarrow> (Inl e, s1)
                                  | (Inr r, s1) \<Rightarrow> (Inr (config\<lparr>Rounds := r\<rparr>), s1))
                            else (Inr config, s)) of
                        (Inl e, s1) \<Rightarrow> (Inl e, s1)
                      | (Inr config1, s1) \<Rightarrow>
                         (let config2 = (if Rounds config1 \<le> 0 then config1\<lparr>Rounds := 3\<rparr>
                                         else config1)
                          in case runDebateFlow_v1 llmClient input config2 llm s1 of
                               (Inl e, s2) \<Rightarrow> (Inl e, s2)
                             | (Inr debate, s2) \<Rightarrow>
                                (case summarizeDebate_v1 llmClient debate
                                        (ChallengerModel llm) s2 of
                                   (Inl e, s3) \<Rightarrow> (Inl e, s3)
                                 | (Inr report, s3) \<Rightarrow>
                                    (case writeFile sys (OutputFile config2) report of
                                       Some e \<Rightarrow> (Inl e, s3)
                                     | None \<Rightarrow>
                                        (Inr (),
                                         s3\<lparr>files := files s3 @
                                              [(OutputFile config2, report)]\<rparr>))))))))"

section \<open>Go slices\<close>

text \<open>
  In \<^verbatim>\<open>src/unnamed/part_000\<close> the loop keeps two slices over one backing array and
  writes through one of them, so slices are modelled with an explicit store. A heap maps
  the address of a backing array to its cells; \<open>fresh\<close> is the next unused address. A
  slice is the address of its array, the index of its first element there and its
  length; its capacity reaches to the end of the array, as it does for every slice made
  by a composite literal, by \<^verbatim>\<open>append\<close> or by a two-index slice expression.
\<close>

record heap =
  cells :: "nat \<Rightarrow> Message list"
  fresh :: nat

record slice =
  arr :: nat
  lo :: nat
  len :: nat

definition emptyHeap :: heap where
  "emptyHeap = \<lparr>cells = (\<lambda>a. []), fresh = 0\<rparr>"

definition zeroMessage :: Message where
  "zeroMessage = \<lparr>Role = [], Content = []\<rparr>"

definition cap :: "heap \<Rightarrow> slice \<Rightarrow> nat" where
  "cap h s = length (cells h (arr s)) - lo s"

text \<open>The elements of a slice, in order: what \<^verbatim>\<open>range\<close> reads.\<close>

definition elems :: "heap \<Rightarrow> slice \<Rightarrow> Message list" where
  "elems h s = take (len s) (drop (lo s) (cells h (arr s)))"

text \<open>The composite literal \<^verbatim>\<open>[]Message{...}\<close>: a new array that the slice covers.\<close>

definition literal :: "heap \<Rightarrow> Message list \<Rightarrow> slice \<times> heap" where
  "literal h xs =
     (\<lparr>arr = fresh h, lo = 0, len = length xs\<rparr>,
      h\<lparr>cells := (cells h)(fresh h := xs), fresh := Suc (fresh h)\<rparr>)"

text \<open>The slice expression \<^verbatim>\<open>s[k:]\<close>: the same array, from \<open>k\<close> elements further on.\<close>

definition sliceFrom :: "slice \<Rightarrow> int \<Rightarrow> error + slice" where
  "sliceFrom s k =
     (if 0 \<le> k \<and> k \<le> int (len s)
      then Inr \<lparr>arr = arr s, lo = lo s + nat k, len = len s - nat k\<rparr>
      else Inl (Panic ''slice bounds out of range''))"

text \<open>The assignment \<^verbatim>\<open>s[i] = v\<close>: a write into the backing array.\<close>

definition setIndex :: "heap \<Rightarrow> slice \<Rightarrow> nat \<Rightarrow> Message \<Rightarrow> error + heap" where
  "setIndex h s i v =
     (if i < len s
      then Inr (h\<lparr>cells := (cells h)(arr s := (cells h (arr s))[lo s + i := v])\<rparr>)
      else Inl (Panic ''index out of range''))"

text \<open>
  \<^verbatim>\<open>append(s, vs...)\<close>: when the capacity suffices the new elements are written into
  the backing array behind the slice; otherwise the elements move to a new array, whose
  cells beyond the length hold the zero value.
\<close>

definition append_slice ::
  "(nat \<Rightarrow> nat \<Rightarrow> nat) \<Rightarrow> heap \<Rightarrow> slice \<Rightarrow> Message list \<Rightarrow> slice \<times> heap" where
  "append_slice grow h s vs =
     (let n = len s + length vs
      in if n \<le> cap h s
         then (s\<lparr>len := n\<rparr>,
               h\<lparr>cells := (cells h)(arr s :=
                    take (lo s + len s) (cells h (arr s)) @ vs
                    @ drop (lo s + n) (cells h (arr s)))\<rparr>)
         else (let c = max n (grow (cap h s) n)
               in (\<lparr>arr = fresh h, lo = 0, len = n\<rparr>,
                   h\<lparr>cells := (cells h)(fresh h :=
                        elems h s @ vs @ replicate (c - n) zeroMessage),
                     fresh := Suc (fresh h)\<rparr>)))"

section \<open>The debate of \<^verbatim>\<open>src/unnamed/part_000\<close>\<close>

text \<open>\<^verbatim>\<open>trimHistory\<close>, lines 251 to 256, on the slice itself.\<close>

definition trimHistory_v2 :: "slice \<Rightarrow> int \<Rightarrow> error + slice" where
  "trimHistory_v2 history max' =
     (if int (len history) \<le> max' then Inr history
      else sliceFrom history (int (len history) - max'))"

text \<open>\<^verbatim>\<open>runSingleRound\<close>, lines 258 to 265; it only reads the elements of \<^verbatim>\<open>history\<close>.\<close>

definition runSingleRound_v2 ::
  "call_v2 client \<Rightarrow> string \<Rightarrow> string \<Rightarrow> Message list \<Rightarrow> call_v2 io
     \<Rightarrow> (error + string) \<times> call_v2 io" where
  "runSingleRound_v2 client model prompt history s =
     (let fullPrompt =
            foldl (\<lambda>fullPrompt m. fullPrompt @ (Role m @ '': '' @ Content m @ nl)) [] history
      in callGenerate client \<lparr>model_v2 = model, system_v2 = prompt, prompt_v2 = fullPrompt\<rparr> s)"

text \<open>
  \<^verbatim>\<open>logDebate\<close>, lines 196 to 198: the text goes to standard output under a time
  stamp, and the error of \<^verbatim>\<open>fmt.Printf\<close> is handed back.
\<close>

definition logDebate :: "sys \<Rightarrow> string \<Rightarrow> 'q io \<Rightarrow> error option \<times> 'q io" where
  "logDebate sys text s =
     (let line = nl @ '' Logged on: '' @ nowString sys (stdout s) @ nl @ text @ nl
      in case printErr sys (stdout s) line of
           Some e \<Rightarrow> (Some e, s)
         | None \<Rightarrow> (None, s\<lparr>stdout := stdout s @ [line]\<rparr>))"

text \<open>
  Lines 212 and 213: the view of one iteration, \<^verbatim>\<open>trimHistory(history, MaxHistory+1)\<close>
  with the claim stored at its index 0.
\<close>

definition windowView_v2 :: "heap \<Rightarrow> slice \<Rightarrow> Message \<Rightarrow> error + slice \<times> heap" where
  "windowView_v2 h history claimEntry =
     (case trimHistory_v2 history (MaxHistory_v2 + 1) of
        Inl e \<Rightarrow> Inl e
      | Inr tempHistory \<Rightarrow>
         (case setIndex h tempHistory 0 claimEntry of
            Inl e \<Rightarrow> Inl e
          | Inr h1 \<Rightarrow> Inr (tempHistory, h1)))"

text \<open>
  One iteration of the loop of \<^verbatim>\<open>runDebateFlow\<close>, lines 212 to 246. \<^verbatim>\<open>localHistory\<close>
  starts as the nil slice, is only appended to and is read once, so it is the list of its
  elements.
\<close>

definition debateRound_v2 ::
  "sys \<Rightarrow> call_v2 client \<Rightarrow> LLMConfig \<Rightarrow> Message \<Rightarrow> heap \<Rightarrow> slice \<Rightarrow> call_v2 io
     \<Rightarrow> (error + heap \<times> slice \<times> DebateRound) \<times> call_v2 io" where
  "debateRound_v2 sys client llm claimEntry h history s =
     (case windowView_v2 h history claimEntry of
        Inl e \<Rightarrow> (Inl e, s)
      | Inr (tempHistory, h1) \<Rightarrow>
         (case runSingleRound_v2 client (ChallengerModel llm)
                 (RoleChallenger @ nl @ ChalPrompt llm) (elems h1 tempHistory) s of
            (Inl e, s1) \<Rightarrow> (Inl (wrap ''running challenger'' e), s1)
          | (Inr chal, s1) \<Rightarrow>
             (let chalEntry = \<lparr>Role = RoleChallenger, Content = chal\<rparr>;
                  (tempHistory2, h2) = append_slice (growCap sys) h1 tempHistory [chalEntry];
                  localHistory = [chalEntry]
              in case logDebate sys (''Challenger responded: '' @ chal) s1 of
                   (Some e, s2) \<Rightarrow> (Inl (wrap ''logging challenger response'' e), s2)
                 | (None, s2) \<Rightarrow>
                    (case runSingleRound_v2 client (DefenderModel llm)
                            (RoleDefender @ nl @ DefPrompt llm) (elems h2 tempHistory2) s2 of
                       (Inl e, s3) \<Rightarrow> (Inl (wrap ''running defender'' e), s3)
                     | (Inr def, s3) \<Rightarrow>
                        (let defEntry = \<lparr>Role = RoleDefender, Content = def\<rparr>;
                             (tempHistory3, h3) =
                                append_slice (growCap sys) h2 tempHistory2 [defEntry];
                             localHistory2 = localHistory @ [defEntry]
                         in case logDebate sys (''Defender responded: '' @ def) s3 of
                              (Some e, s4) \<Rightarrow>
                                (Inl (wrap ''logging defender response'' e), s4)
                            | (None, s4) \<Rightarrow>
                               (let (history1, h4) =
                                      append_slice (growCap sys) h3 history localHistory2
                                in (Inr (h4, history1,
                                         \<lparr>Challenger = chal, Defender = def\<rparr>), s4)))))))"

text \<open>
  The loop, by the iterations left; it yields the heap and the variables \<^verbatim>\<open>history\<close>
  and \<^verbatim>\<open>rounds\<close> as they are when the loop is left, or the error that ended it.
\<close>

fun debateLoop_v2 ::
  "sys \<Rightarrow> call_v2 client \<Rightarrow> LLMConfig \<Rightarrow> Message \<Rightarrow> nat \<Rightarrow> heap \<Rightarrow> slice
     \<Rightarrow> DebateRound list \<Rightarrow> call_v2 io
     \<Rightarrow> (error + heap \<times> slice \<times> DebateRound list) \<times> call_v2 io" where
  "debateLoop_v2 sys client llm claimEntry 0 h history rounds s = (Inr (h, history, rounds), s)"
| "debateLoop_v2 sys client llm claimEntry (Suc n) h history rounds s =
     (case debateRound_v2 sys client llm claimEntry h history s of
        (Inl e, s1) \<Rightarrow> (Inl e, s1)
      | (Inr (h1, history1, r), s1) \<Rightarrow>
          debateLoop_v2 sys client llm claimEntry n h1 history1 (rounds @ [r]) s1)"

text \<open>\<^verbatim>\<open>runDebateFlow\<close>, lines 201 to 249.\<close>

definition runDebateFlow_v2 ::
  "sys \<Rightarrow> call_v2 client \<Rightarrow> string \<Rightarrow> DebateConfig \<Rightarrow> LLMConfig \<Rightarrow> call_v2 io
     \<Rightarrow> (error + DebateRound list) \<times> call_v2 io" where
  "runDebateFlow_v2 sys client claim config llm s =
     (let claimEntry = \<lparr>Role = RoleUser, Content = claim\<rparr>;
          (history, h) = literal emptyHeap [claimEntry]
      in case logDebate sys (''Starting debate with claim: '' @ claim @ nl) s of
           (Some e, s1) \<Rightarrow> (Inl e, s1)
         | (None, s1) \<Rightarrow>
            (case debateLoop_v2 sys client llm claimEntry (nat (Rounds config)) h history []
                    s1 of
               (Inl e, s2) \<Rightarrow> (Inl e, s2)
             | (Inr (h1, history1, rounds), s2) \<Rightarrow> (Inr rounds, s2)))"

text \<open>\<^verbatim>\<open>summarizeDebate\<close>, lines 268 to 274.\<close>

definition summarizeDebate_v2 ::
  "call_v2 client \<Rightarrow> DebateRound list \<Rightarrow> string \<Rightarrow> call_v2 io \<Rightarrow> (error + string) \<times> call_v2 io" where
  "summarizeDebate_v2 client debate model s =
     runSingleRound_v2 client model summaryInstruction
       [\<lparr>Role = RoleSystem, Content = summaryText 0 debate []\<rparr>] s"

text \<open>
  \<^verbatim>\<open>estimateRounds\<close>, lines 320 to 340; \<^verbatim>\<open>time.Millisecond\<close> is 1000000
  nanoseconds.
\<close>

definition estimateRounds_v2 ::
  "sys \<Rightarrow> call_v2 client \<Rightarrow> string \<Rightarrow> LLMConfig \<Rightarrow> string \<Rightarrow> call_v2 io
     \<Rightarrow> (error + int) \<times> call_v2 io" where
  "estimateRounds_v2 sys client claim llm duration s =
     (case runDebateFlow_v2 sys client claim
             \<lparr>Rounds = 1, Duration = [], InputFile = [], OutputFile = []\<rparr> llm s of
        (Inl e, s1) \<Rightarrow> (Inl e, s1)
      | (Inr trial, s1) \<Rightarrow>
         (let elapsed = trialElapsed sys;
              elapsed = (if elapsed \<le> 0 then 1000000 else elapsed)
          in case parseDuration sys duration of
               Inl e \<Rightarrow> (Inl (wrap ''invalid duration'' e), s1)
             | Inr total' \<Rightarrow>
                (let rounds = secondsQuotient sys total' elapsed;
                     rounds = (if rounds < 1 then 1 else rounds)
                 in (Inr rounds,
                     s1\<lparr>stdout := stdout s1 @
                          [''Estimated '' @ showInt rounds @ '' rounds (1 round = ''
                           @ formatDuration sys elapsed @ '')'' @ nl]\<rparr>))))"

text \<open>\<^verbatim>\<open>math.MaxInt\<close> where \<^verbatim>\<open>int\<close> has 64 bits.\<close>

definition MaxInt :: int where
  "MaxInt = 2 ^ 63 - 1"

text \<open>\<^verbatim>\<open>runCLI\<close>, lines 86 to 130.\<close>

definition runCLI_v2 ::
  "sys \<Rightarrow> (call_v2 list \<Rightarrow> GenerateRequest_v2 \<Rightarrow> api_reply) \<Rightarrow> flags \<Rightarrow> call_v2 io
     \<Rightarrow> (error + unit) \<times> call_v2 io" where
  "runCLI_v2 sys server f s =
     (case parseFlags sys f of
        Inl e \<Rightarrow> (Inl e, s)
      | Inr (config, llm) \<Rightarrow>
         if Rounds config > 0 \<and> Duration config \<noteq> []
         then (Inl (Err ''--rounds and --duration cannot be used together''), s)
         else
          (case loadInput sys (InputFile config) of
             Inl e \<Rightarrow> (Inl e, s)
           | Inr input \<Rightarrow>
              (case clientFromEnvironment sys of
                 Some e \<Rightarrow> (Inl (wrap ''creating client'' e), s)
               | None \<Rightarrow>
                  (let llmClient = NewOllamaClient_v2 server
                   in case (if Rounds config = 0 \<and> Duration config \<noteq> []
                            then (case estimateRounds_v2 sys llmClient input llm
                                         (Duration config) s of
                                    (Inl e, s1) \<Rightarrow> (Inl e, s1)
                                  | (Inr r, s1) \<Rightarrow> (Inr (config\<lparr>Rounds := r\<rparr>), s1))
                            else (Inr config, s)) of
                        (Inl e, s1) \<Rightarrow> (Inl e, s1)
                      | (Inr config1, s1) \<Rightarrow>
                         (let config2 = (if Rounds config1 \<le> 0
                                         then config1\<lparr>Rounds := MaxInt\<rparr> else config1)
                          in case runDebateFlow_v2 sys llmClient input config2 llm s1 of
                               (Inl e, s2) \<Rightarrow> (Inl e, s2)
                             | (Inr debate, s2) \<Rightarrow>
                                (case summarizeDebate_v2 llmClient debate
                                        (ChallengerModel llm) s2 of
                                   (Inl e, s3) \<Rightarrow> (Inl e, s3)
                                 | (Inr report, s3) \<Rightarrow>
                                    (case writeFile sys (OutputFile config2) report of
                                       Some e \<Rightarrow> (Inl e, s3)
                                     | None \<Rightarrow>
                                        (Inr (),
                                         s3\<lparr>files := files s3 @
                                              [(OutputFile config2, report)]\<rparr>))))))))"

section \<open>Notions used to state the properties\<close>

text \<open>One line of a transcript, and the transcript of a list of messages.\<close>

definition renderMessage :: "Message \<Rightarrow> string" where
  "renderMessage m = Role m @ '': '' @ Content m @ nl"

definition transcript :: "Message list \<Rightarrow> string" where
  "transcript history = concat (map renderMessage history)"

text \<open>A slice lies in the heap: its array is allocated and holds all its elements.\<close>

definition inHeap :: "heap \<Rightarrow> slice \<Rightarrow> bool" where
  "inHeap h s \<longleftrightarrow> arr s < fresh h \<and> lo s + len s \<le> length (cells h (arr s))"

text \<open>
  The iteration of \<^verbatim>\<open>src/unnamed/part_000\<close> read on the list of the elements of
  \<^verbatim>\<open>history\<close>. The write through \<^verbatim>\<open>tempHistory[0]\<close> appears twice: in the view, and
  in \<^verbatim>\<open>history\<close> itself at the index where the view starts. The lemmas
  \<open>debateRound_v2_refines\<close> and \<open>debateLoop_v2_refines\<close> below show that the program on
  the heap computes exactly this.
\<close>

definition roundOnLists_v2 ::
  "sys \<Rightarrow> call_v2 client \<Rightarrow> LLMConfig \<Rightarrow> Message \<Rightarrow> Message list \<Rightarrow> call_v2 io
     \<Rightarrow> (error + Message list \<times> DebateRound) \<times> call_v2 io" where
  "roundOnLists_v2 sys client llm claimEntry history s =
     (let k = length history - 101;
          tempHistory = (drop k history)[0 := claimEntry]
      in case runSingleRound_v2 client (ChallengerModel llm)
                 (RoleChallenger @ nl @ ChalPrompt llm) tempHistory s of
            (Inl e, s1) \<Rightarrow> (Inl (wrap ''running challenger'' e), s1)
          | (Inr chal, s1) \<Rightarrow>
             (let chalEntry = \<lparr>Role = RoleChallenger, Content = chal\<rparr>
              in case logDebate sys (''Challenger responded: '' @ chal) s1 of
                   (Some e, s2) \<Rightarrow> (Inl (wrap ''logging challenger response'' e), s2)
                 | (None, s2) \<Rightarrow>
                    (case runSingleRound_v2 client (DefenderModel llm)
                            (RoleDefender @ nl @ DefPrompt llm) (tempHistory @ [chalEntry]) s2 of
                       (Inl e, s3) \<Rightarrow> (Inl (wrap ''running defender'' e), s3)
                     | (Inr def, s3) \<Rightarrow>
                        (let defEntry = \<lparr>Role = RoleDefender, Content = def\<rparr>
                         in case logDebate sys (''Defender responded: '' @ def) s3 of
                              (Some e, s4) \<Rightarrow>
                                (Inl (wrap ''logging defender response'' e), s4)
                            | (None, s4) \<Rightarrow>
                                (Inr (history[k := claimEntry] @ [chalEntry, defEntry],
                                      \<lparr>Challenger = chal, Defender = def\<rparr>), s4)))))"

fun loopOnLists_v2 ::
  "sys \<Rightarrow> call_v2 client \<Rightarrow> LLMConfig \<Rightarrow> Message \<Rightarrow> nat \<Rightarrow> Message list
     \<Rightarrow> DebateRound list \<Rightarrow> call_v2 io
     \<Rightarrow> (error + Message list \<times> DebateRound list) \<times> call_v2 io" where
  "loopOnLists_v2 sys client llm claimEntry 0 history rounds s = (Inr (history, rounds), s)"
| "loopOnLists_v2 sys client llm claimEntry (Suc n) history rounds s =
     (case roundOnLists_v2 sys client llm claimEntry history s of
        (Inl e, s1) \<Rightarrow> (Inl e, s1)
      | (Inr (history1, r), s1) \<Rightarrow>
          loopOnLists_v2 sys client llm claimEntry n history1 (rounds @ [r]) s1)"

text \<open>
  A result on the heap agrees with a result on lists: the same error, or the same round
  with a history slice that lies in the heap and holds the same elements.
\<close>

definition sameRound ::
  "(error + heap \<times> slice \<times> DebateRound) \<Rightarrow> (error + Message list \<times> DebateRound) \<Rightarrow> nat
     \<Rightarrow> bool" where
  "sameRound x y n =
     (case x of
        Inl e \<Rightarrow> y = Inl e
      | Inr (h, history, r) \<Rightarrow>
          y = Inr (elems h history, r) \<and> inHeap h history \<and> len history = n + 2)"

definition sameLoop ::
  "(error + heap \<times> slice \<times> DebateRound list) \<Rightarrow> (error + Message list \<times> DebateRound list)
     \<Rightarrow> bool" where
  "sameLoop x y =
     (case x of
        Inl e \<Rightarrow> y = Inl e
      | Inr (h, history, rounds) \<Rightarrow> y = Inr (elems h history, rounds) \<and> inHeap h history)"

text \<open>
  A list of calls alternates: it is made of pairs, first a call with the model and the
  instruction of the Challenger, then one with the model and the instruction of the
  Defender. In \<^verbatim>\<open>src/main.go\<close> the instruction is the beginning of the prompt.
\<close>

fun alternating_v1 :: "LLMConfig \<Rightarrow> call_v1 list \<Rightarrow> bool" where
  "alternating_v1 llm [] = True"
| "alternating_v1 llm [c] = False"
| "alternating_v1 llm (c # d # cs) =
     (model_v1 c = ChallengerModel llm
      \<and> take (length (ChalPrompt llm @ nl)) (prompt_v1 c) = ChalPrompt llm @ nl
      \<and> model_v1 d = DefenderModel llm
      \<and> take (length (DefPrompt llm @ nl)) (prompt_v1 d) = DefPrompt llm @ nl
      \<and> alternating_v1 llm cs)"

fun alternating_v2 :: "LLMConfig \<Rightarrow> call_v2 list \<Rightarrow> bool" where
  "alternating_v2 llm [] = True"
| "alternating_v2 llm [c] = False"
| "alternating_v2 llm (c # d # cs) =
     (model_v2 c = ChallengerModel llm \<and> system_v2 c = RoleChallenger @ nl @ ChalPrompt llm
      \<and> model_v2 d = DefenderModel llm \<and> system_v2 d = RoleDefender @ nl @ DefPrompt llm
      \<and> alternating_v2 llm cs)"

text \<open>The view of one iteration as a list: what the Challenger is shown.\<close>

definition windowOnLists_v1 :: "Message list \<Rightarrow> Message list" where
  "windowOnLists_v1 history = drop (length history - 10) history"

definition windowOnLists_v2 :: "Message \<Rightarrow> Message list \<Rightarrow> Message list" where
  "windowOnLists_v2 claimEntry history = (drop (length history - 101) history)[0 := claimEntry]"

text \<open>
  The elements of the variable \<^verbatim>\<open>history\<close> of \<^verbatim>\<open>runDebateFlow\<close> in
  \<^verbatim>\<open>src/unnamed/part_000\<close> after \<open>n\<close> iterations of its loop, if the run gets that far.
\<close>

definition historyAfter_v2 ::
  "sys \<Rightarrow> call_v2 client \<Rightarrow> string \<Rightarrow> LLMConfig \<Rightarrow> nat \<Rightarrow> call_v2 io
     \<Rightarrow> Message list option" where
  "historyAfter_v2 sys client claim llm n s =
     (let claimEntry = \<lparr>Role = RoleUser, Content = claim\<rparr>;
          (history, h) = literal emptyHeap [claimEntry]
      in case logDebate sys (''Starting debate with claim: '' @ claim @ nl) s of
           (Some e, s1) \<Rightarrow> None
         | (None, s1) \<Rightarrow>
            (case debateLoop_v2 sys client llm claimEntry n h history [] s1 of
               (Inl e, s2) \<Rightarrow> None
             | (Inr (h1, history1, rounds), s2) \<Rightarrow> Some (elems h1 history1)))"

section \<open>The quotient of two durations in \<^verbatim>\<open>float64\<close>\<close>

text \<open>
  \<^verbatim>\<open>estimateRounds\<close> computes \<^verbatim>\<open>int(total.Seconds() / elapsed.Seconds())\<close>. The values of
  \<^verbatim>\<open>float64\<close> are those of IEEE 754 binary64, and every operation yields the value
  nearest to the exact result, the one with an even significand when two are equally
  near. A value that is not negative is written here as a fraction of two integers. The
  numbers that occur lie between \<^verbatim>\<open>1e-19\<close> and \<^verbatim>\<open>1e19\<close>, far from the least and the
  greatest exponent, so the significand of 53 bits is the only limit.

  \<open>roundHalfEven p q\<close> is the integer nearest to \<open>p / q\<close>. \<open>scaleUp\<close> doubles the
  numerator and \<open>scaleDown\<close> the denominator, counting the steps, until the fraction
  lies between \<^verbatim>\<open>2^52\<close> and \<^verbatim>\<open>2^53\<close>. \<open>float64 (p, q)\<close> is the value of \<^verbatim>\<open>float64\<close>
  nearest to \<open>p / q\<close>, for \<open>0 \<le> p\<close> and \<open>0 < q\<close>.
\<close>

definition roundHalfEven :: "int \<Rightarrow> int \<Rightarrow> int" where
  "roundHalfEven p q =
     (let m = p div q; r = p mod q
      in if 2 * r < q then m else if q < 2 * r then m + 1 else if even m then m else m + 1)"

function scaleUp :: "int \<Rightarrow> int \<Rightarrow> nat \<Rightarrow> int \<times> nat" where
  "scaleUp p q j = (if 0 < p \<and> p < 2 ^ 52 * q then scaleUp (2 * p) q (Suc j) else (p, j))"
  by pat_completeness auto
termination
  by (relation "measure (\<lambda>(p, q, j). nat (2 ^ 52 * q - p))") auto

function scaleDown :: "int \<Rightarrow> int \<Rightarrow> nat \<Rightarrow> int \<times> nat" where
  "scaleDown p q i = (if 0 < q \<and> 2 ^ 53 * q \<le> p then scaleDown p (2 * q) (Suc i) else (q, i))"
  by pat_completeness auto
termination
  by (relation "measure (\<lambda>(p, q, i). nat (p + 1 - 2 ^ 53 * q))") auto

declare scaleUp.simps [simp del] scaleDown.simps [simp del]

definition float64 :: "int \<times> int \<Rightarrow> int \<times> int" where
  "float64 x =
     (if fst x \<le> 0 \<or> snd x \<le> 0 then (0, 1)
      else (let (p1, j) = scaleUp (fst x) (snd x) 0;
                (q1, i) = scaleDown p1 (snd x) 0;
                m = roundHalfEven p1 q1
            in (m * 2 ^ i, 2 ^ j)))"

text \<open>
  \<^verbatim>\<open>Duration.Seconds\<close> of the package \<^verbatim>\<open>time\<close>, for a duration of \<open>d \<ge> 0\<close> nanoseconds:
  \<^verbatim>\<open>sec := d / Second; nsec := d % Second; return float64(sec) + float64(nsec)/1e9\<close>.
\<close>

definition Seconds :: "int \<Rightarrow> int \<times> int" where
  "Seconds d =
     (let sec = float64 (d div 1000000000, 1);
          nsec = float64 (d mod 1000000000, 1);
          e9 = float64 (1000000000, 1);
          frac = float64 (fst nsec * snd e9, snd nsec * fst e9)
      in float64 (fst sec * snd frac + fst frac * snd sec, snd sec * snd frac))"

text \<open>
  \<^verbatim>\<open>int(total.Seconds() / elapsed.Seconds())\<close> for two durations in nanoseconds. The
  division and the remainder of Go, the rounding and the conversion to \<^verbatim>\<open>int\<close> are all
  symmetric around zero, so the signs are set aside and put back on the result; the
  conversion cuts the fraction off. No value is given where the language leaves the
  result to the implementation: the division by zero, and a quotient of \<^verbatim>\<open>2^63\<close> or more.
\<close>

definition float64Quotient :: "int \<Rightarrow> int \<Rightarrow> int option" where
  "float64Quotient total' elapsed =
     (let a = Seconds \<bar>total'\<bar>;
          b = Seconds \<bar>elapsed\<bar>
      in if elapsed = 0 \<or> fst b = 0 then None
         else (let quot = float64 (fst a * snd b, snd a * fst b);
                   t = fst quot div snd quot
               in if 2 ^ 63 \<le> t then None else Some (sgn total' * sgn elapsed * t)))"

text \<open>
  An environment computes in binary64 when its quotient is this one wherever this one
  has a value. \<open>goQuotient\<close> is such a quotient: where the language leaves the result
  open it yields the least \<^verbatim>\<open>int\<close>, as the conversion does on amd64.
\<close>

definition binary64 :: "sys \<Rightarrow> bool" where
  "binary64 sys \<longleftrightarrow>
     (\<forall>total' elapsed q. float64Quotient total' elapsed = Some q
         \<longrightarrow> secondsQuotient sys total' elapsed = q)"

definition goQuotient :: "int \<Rightarrow> int \<Rightarrow> int" where
  "goQuotient total' elapsed =
     (case float64Quotient total' elapsed of Some q \<Rightarrow> q | None \<Rightarrow> - (2 ^ 63))"

section \<open>Sample inputs\<close>

text \<open>
  The client of \<^verbatim>\<open>main_test.go\<close> without a \<^verbatim>\<open>respond\<close> function: every call is
  answered with \<open>ok\<close>. The same for an Ollama server that streams the one chunk \<open>ok\<close>.
\<close>

definition fakeLLM :: "'q client" where
  "fakeLLM = (\<lambda>before q. Inr ''ok'')"

definition okServer :: "'q list \<Rightarrow> 'r \<Rightarrow> api_reply" where
  "okServer = (\<lambda>before request. ([''ok''], None))"

definition io0 :: "'q io" where
  "io0 = \<lparr>calls = [], stdout = [], files = []\<rparr>"

definition llm0 :: LLMConfig where
  "llm0 = \<lparr>ChallengerModel = ''mC'', DefenderModel = ''mD'', ChalPrompt = ''CP'',
           DefPrompt = ''DP''\<rparr>"

definition rounds0 :: "int \<Rightarrow> DebateConfig" where
  "rounds0 n = \<lparr>Rounds = n, Duration = [], InputFile = [], OutputFile = []\<rparr>"

text \<open>
  An environment in which the file \<open>notes.md\<close> holds a claim, every write succeeds,
  the trial round takes 20 seconds, only the duration \<open>2m\<close> parses, and the quotient
  is computed in binary64.
\<close>

definition sys0 :: sys where
  "sys0 = \<lparr>readFile = (\<lambda>path. if path = ''notes.md'' then Inr ''the claim''
                             else Inl (Err ''no such file'')),
           writeFile = (\<lambda>path data. None),
           clientFromEnvironment = None,
           trialElapsed = 20000000000,
           parseDuration = (\<lambda>d. if d = ''2m'' then Inr 120000000000
                                 else Inl (Err ''time: invalid duration'')),
           secondsQuotient = goQuotient,
           formatDuration = (\<lambda>d. ''20s''),
           printErr = (\<lambda>out text. None),
           nowString = (\<lambda>out. ''now''),
           growCap = (\<lambda>old need. 2 * old)\<rparr>"

definition flags0 :: flags where
  "flags0 = \<lparr>input_flag = ''notes.md'', output_flag = ''report.md'', rounds_flag = 0,
             duration_flag = [], challenger_flag = ''llama3'', defender_flag = ''llama3'',
             challenger_prompt_flag = [], defender_prompt_flag = []\<rparr>"

text \<open>The claim and the two turns of a round in which both models answer \<open>ok\<close>.\<close>

definition seed0 :: Message where
  "seed0 = \<lparr>Role = RoleUser, Content = ''c''\<rparr>"

definition chal0 :: Message where
  "chal0 = \<lparr>Role = RoleChallenger, Content = ''ok''\<rparr>"

definition def0 :: Message where
  "def0 = \<lparr>Role = RoleDefender, Content = ''ok''\<rparr>"

text \<open>The same environment with a standard output whose second write fails.\<close>

definition sysStdoutFull :: sys where
  "sysStdoutFull =
     sys0\<lparr>printErr := (\<lambda>out text. if length out = 1 then Some (Err ''no space left on device'')
                                  else None)\<rparr>"

text \<open>The same command line with a wall-clock budget that does not parse.\<close>

definition flagsBadDuration :: flags where
  "flagsBadDuration = flags0\<lparr>duration_flag := ''not-a-duration''\<rparr>"

text \<open>
  The same environment with a trial round of 100 milliseconds, in which only the
  duration \<open>300ms\<close> parses.
\<close>

definition sys300ms :: sys where
  "sys300ms =
     sys0\<lparr>trialElapsed := 100000000,
          parseDuration := (\<lambda>d. if d = ''300ms'' then Inr 300000000
                                else Inl (Err ''time: invalid duration'')),
          formatDuration := (\<lambda>d. ''100ms'')\<rparr>"

section \<open>The Ollama wrapper, unfolded\<close>

lemma foldl_result_v2:
  "fst (foldl (\<lambda>(result, resultCount, sent) resp.
                 (result @ resp, Suc resultCount, sent @ [resultCount])) (r, c, s) chunks)
   = foldl (\<lambda>result resp. result @ resp) r chunks"
  by (induction chunks arbitrary: r c s) auto

lemma foldl_append_concat: "foldl (\<lambda>result resp. result @ resp) r chunks = r @ concat chunks"
  by (induction chunks arbitrary: r) auto

lemma Generate_v2_unfold:
  "Generate_v2 api model sys prompt =
     (case snd (api \<lparr>Model_v2 = model, System_v2 = sys, Prompt_v2 = prompt, Stream_v2 = True,
                     Options_v2 = [(''temperature'', ''0.7''), (''top_p'', ''0.9''),
                                   (''max_tokens'', ''150'')]\<rparr>) of
        Some e \<Rightarrow> Inl e
      | None \<Rightarrow>
          if concat (fst (api \<lparr>Model_v2 = model, System_v2 = sys, Prompt_v2 = prompt,
                     Stream_v2 = True,
                     Options_v2 = [(''temperature'', ''0.7''), (''top_p'', ''0.9''),
                                   (''max_tokens'', ''150'')]\<rparr>)) = []
          then Inl (Err ''empty response'')
          else Inr (concat (fst (api \<lparr>Model_v2 = model, System_v2 = sys, Prompt_v2 = prompt,
                     Stream_v2 = True,
                     Options_v2 = [(''temperature'', ''0.7''), (''top_p'', ''0.9''),
                                   (''max_tokens'', ''150'')]\<rparr>))))"
  unfolding Generate_v2_def GenerateWithChannel_v2_def Let_def
  by (simp add: case_prod_beta foldl_result_v2 foldl_append_concat split: option.splits)

lemma Generate_v1_unfold:
  "Generate_v1 api model prompt =
     (case snd (api \<lparr>Model_v1 = model, Prompt_v1 = prompt\<rparr>) of
        Some e \<Rightarrow> Inl e
      | None \<Rightarrow>
          if concat (fst (api \<lparr>Model_v1 = model, Prompt_v1 = prompt\<rparr>)) = []
          then Inl (Err ''empty response'')
          else Inr (concat (fst (api \<lparr>Model_v1 = model, Prompt_v1 = prompt\<rparr>))))"
  unfolding Generate_v1_def Let_def
  by (simp add: case_prod_beta foldl_append_concat split: option.splits)

section \<open>Transcripts, slices and the refinement of the loop\<close>

lemma foldl_transcript:
  "foldl (\<lambda>fullPrompt m. fullPrompt @ (Role m @ '': '' @ Content m @ nl)) init history
   = init @ transcript history"
  by (induction history arbitrary: init) (simp_all add: transcript_def renderMessage_def)

lemma runSingleRound_v1_eq:
  "runSingleRound_v1 client model prompt history role s =
     callGenerate client \<lparr>model_v1 = model, prompt_v1 = prompt @ nl @ transcript history\<rparr> s"
  unfolding runSingleRound_v1_def Let_def foldl_transcript by simp

lemma runSingleRound_v2_eq:
  "runSingleRound_v2 client model prompt history s =
     callGenerate client
       \<lparr>model_v2 = model, system_v2 = prompt, prompt_v2 = transcript history\<rparr> s"
  unfolding runSingleRound_v2_def Let_def foldl_transcript by simp

lemma summaryText_acc:
  "summaryText i debate acc =
     acc @ concat (map2 (\<lambda>k r. ''### Round '' @ decimal k @ nl @ ''Challenger: '' @ Challenger r @ nl
                    @ ''Defender: '' @ Defender r @ nl @ nl) [Suc i ..< Suc i + length debate] debate)"
proof (induction debate arbitrary: i acc)
  case Nil
  then show ?case by simp
next
  case (Cons r debate)
  have "[Suc i ..< Suc i + length (r # debate)] = Suc i # [Suc (Suc i) ..< Suc (Suc i) + length debate]"
    by (simp add: upt_rec)
  then show ?case using Cons.IH [of "Suc i"] by simp
qed

lemma trimHistory_v2_eq:
  "0 \<le> m \<Longrightarrow> trimHistory_v2 s m =
     Inr \<lparr>arr = arr s, lo = lo s + (len s - nat m), len = min (len s) (nat m)\<rparr>"
  by (auto simp: trimHistory_v2_def sliceFrom_def min_def)

lemma windowView_v2_eq:
  "0 < len s \<Longrightarrow> windowView_v2 h s ce =
     Inr (\<lparr>arr = arr s, lo = lo s + (len s - 101), len = min (len s) 101\<rparr>,
          h\<lparr>cells := (cells h)(arr s := (cells h (arr s))[lo s + (len s - 101) := ce])\<rparr>)"
  by (simp add: windowView_v2_def trimHistory_v2_eq MaxHistory_v2_def setIndex_def)

lemma windowView_v2_panics:
  "len s = 0 \<Longrightarrow> windowView_v2 h s ce = Inl (Panic ''index out of range'')"
  by (simp add: windowView_v2_def trimHistory_v2_eq MaxHistory_v2_def setIndex_def)

lemma elems_view:
  assumes "inHeap h s"
  shows "elems (h\<lparr>cells := (cells h)(arr s := (cells h (arr s))[lo s + (len s - 101) := ce])\<rparr>)
           \<lparr>arr = arr s, lo = lo s + (len s - 101), len = min (len s) 101\<rparr>
         = (drop (len s - 101) (elems h s))[0 := ce]"
  using assms
  by (simp add: elems_def inHeap_def drop_update_swap take_update_swap drop_take add.commute min_def)

lemma elems_clobbered:
  assumes "inHeap h s"
  shows "elems (h\<lparr>cells := (cells h)(arr s := (cells h (arr s))[lo s + (len s - 101) := ce])\<rparr>) s
         = (elems h s)[len s - 101 := ce]"
  using assms
  by (simp add: elems_def inHeap_def drop_update_swap take_update_swap)

lemma append_slice_cases:
  assumes "append_slice g h s vs = (s', h')"
  obtains (inplace) "len s + length vs \<le> cap h s" "s' = s\<lparr>len := len s + length vs\<rparr>"
      "h' = h\<lparr>cells := (cells h)(arr s :=
                    take (lo s + len s) (cells h (arr s)) @ vs
                    @ drop (lo s + (len s + length vs)) (cells h (arr s)))\<rparr>"
  | (moved) c where "\<not> len s + length vs \<le> cap h s"
      "s' = \<lparr>arr = fresh h, lo = 0, len = len s + length vs\<rparr>"
      "h' = h\<lparr>cells := (cells h)(fresh h :=
                        elems h s @ vs @ replicate c zeroMessage),
                     fresh := Suc (fresh h)\<rparr>"
  using assms by (auto simp: append_slice_def Let_def split: if_splits)

lemma elems_new_array:
  "elems (h\<lparr>cells := (cells h)(a := xs), fresh := f\<rparr>) \<lparr>arr = a, lo = 0, len = n\<rparr> = take n xs"
  by (simp add: elems_def)

lemma length_elems: "inHeap h s \<Longrightarrow> length (elems h s) = len s"
  by (auto simp: elems_def inHeap_def)

lemma append_slice_elems:
  assumes "inHeap h s" "append_slice g h s vs = (s', h')"
  shows "elems h' s' = elems h s @ vs \<and> inHeap h' s' \<and> len s' = len s + length vs"
  using assms(2)
proof (cases rule: append_slice_cases)
  case inplace
  with assms(1) show ?thesis
    by (simp add: elems_def inHeap_def cap_def drop_take)
next
  case (moved c)
  have l: "length (elems h s) = len s"
    using assms(1) by (rule length_elems)
  have "elems h' s' = take (len s + length vs) (elems h s @ vs @ replicate c zeroMessage)"
    unfolding moved by (rule elems_new_array)
  then have "elems h' s' = elems h s @ vs"
    using l by simp
  moreover have "inHeap h' s'"
    using moved l by (simp add: inHeap_def)
  ultimately show ?thesis
    using moved by simp
qed

lemma append_slice_frame:
  assumes "inHeap h s" "inHeap h u" "arr s \<noteq> arr u \<or> lo u + len u \<le> lo s + len s"
    "append_slice g h s vs = (s', h')"
  shows "elems h' u = elems h u \<and> inHeap h' u
         \<and> (arr s' \<noteq> arr u \<or> lo u + len u \<le> lo s' + len s')"
  using assms(4)
proof (cases rule: append_slice_cases)
  case inplace
  with assms(1,2,3) show ?thesis
    by (auto simp: elems_def inHeap_def cap_def drop_take min_def)
next
  case (moved c)
  with assms(1,2,3) show ?thesis
    by (auto simp: elems_def inHeap_def)
qed

lemma round_heap_effect:
  assumes wf: "inHeap h history" and pos: "0 < len history"
    and wv: "windowView_v2 h history ce = Inr (t, h1)"
    and a2: "append_slice g h1 t [cE] = (T2, h2)"
    and a3: "append_slice g h2 T2 [dE] = (T3, h3)"
    and a4: "append_slice g h3 history [cE, dE] = (H', h4)"
  shows "elems h1 t = (drop (len history - 101) (elems h history))[0 := ce]
       \<and> elems h2 T2 = (drop (len history - 101) (elems h history))[0 := ce] @ [cE]
       \<and> elems h4 H' = (elems h history)[len history - 101 := ce] @ [cE, dE]
       \<and> inHeap h4 H' \<and> len H' = len history + 2"
proof -
  from wv pos have t: "t = \<lparr>arr = arr history, lo = lo history + (len history - 101),
                              len = min (len history) 101\<rparr>"
    and h1: "h1 = h\<lparr>cells := (cells h)(arr history :=
                    (cells h (arr history))[lo history + (len history - 101) := ce])\<rparr>"
    by (simp_all add: windowView_v2_eq)
  have e1: "elems h1 t = (drop (len history - 101) (elems h history))[0 := ce]"
    unfolding t h1 using wf by (rule elems_view)
  have e1h: "elems h1 history = (elems h history)[len history - 101 := ce]"
    unfolding h1 using wf by (rule elems_clobbered)
  have wf1t: "inHeap h1 t" and wf1h: "inHeap h1 history"
    using wf by (auto simp: t h1 inHeap_def)
  have rel1: "arr t \<noteq> arr history \<or> lo history + len history \<le> lo t + len t"
    by (auto simp: t)
  from append_slice_elems [OF wf1t a2]
  have e2: "elems h2 T2 = elems h1 t @ [cE]" and wf2t: "inHeap h2 T2" by simp_all
  from append_slice_frame [OF wf1t wf1h rel1 a2]
  have e2h: "elems h2 history = elems h1 history" and wf2h: "inHeap h2 history"
    and rel2: "arr T2 \<noteq> arr history \<or> lo history + len history \<le> lo T2 + len T2"
    by simp_all
  from append_slice_frame [OF wf2t wf2h rel2 a3]
  have e3h: "elems h3 history = elems h2 history" and wf3h: "inHeap h3 history"
    by simp_all
  from append_slice_elems [OF wf3h a4]
  have e4: "elems h4 H' = elems h3 history @ [cE, dE]" and wf4: "inHeap h4 H'"
    and l4: "len H' = len history + 2" by simp_all
  show ?thesis
    using e1 e2 e4 e3h e2h e1h wf4 l4 by simp
qed

lemma debateRound_v2_refines:
  assumes wf: "inHeap h history" and pos: "0 < len history"
  shows "snd (debateRound_v2 sys client llm ce h history s)
           = snd (roundOnLists_v2 sys client llm ce (elems h history) s)
       \<and> sameRound (fst (debateRound_v2 sys client llm ce h history s))
            (fst (roundOnLists_v2 sys client llm ce (elems h history) s)) (len history)"
proof -
  obtain t h1 where wv: "windowView_v2 h history ce = Inr (t, h1)"
    using pos by (simp add: windowView_v2_eq)
  have l: "length (elems h history) = len history"
    using wf by (rule length_elems)
  define V where "V = (drop (len history - 101) (elems h history))[0 := ce]"
  have eff: "elems h1 t = V
       \<and> elems h2 T2 = V @ [cE]
       \<and> elems h4 H' = (elems h history)[len history - 101 := ce] @ [cE, dE]
       \<and> inHeap h4 H' \<and> len H' = len history + 2"
    if "append_slice (growCap sys) h1 t [cE] = (T2, h2)"
      "append_slice (growCap sys) h2 T2 [dE] = (T3, h3)"
      "append_slice (growCap sys) h3 history [cE, dE] = (H', h4)"
    for cE dE T2 h2 T3 h3 H' h4
    unfolding V_def using round_heap_effect [OF wf pos wv that] .
  have e1: "elems h1 t = V"
  proof -
    obtain T2 h2 where a2: "append_slice (growCap sys) h1 t [ce] = (T2, h2)" by force
    obtain T3 h3 where a3: "append_slice (growCap sys) h2 T2 [ce] = (T3, h3)" by force
    obtain H' h4 where a4: "append_slice (growCap sys) h3 history [ce, ce] = (H', h4)" by force
    from eff [OF a2 a3 a4] show ?thesis by simp
  qed
  obtain r1 s1 where c1: "runSingleRound_v2 client (ChallengerModel llm)
      (RoleChallenger @ nl @ ChalPrompt llm) V s = (r1, s1)" by force
  show ?thesis
  proof (cases r1)
    case (Inl e)
    then show ?thesis
      by (simp add: debateRound_v2_def roundOnLists_v2_def sameRound_def wv e1 l c1
          V_def [symmetric])
  next
    case (Inr chal)
    define cE where "cE = \<lparr>Role = RoleChallenger, Content = chal\<rparr>"
    obtain T2 h2 where a2: "append_slice (growCap sys) h1 t [cE] = (T2, h2)" by force
    obtain o1 s2 where c2: "logDebate sys (''Challenger responded: '' @ chal) s1 = (o1, s2)"
      by force
    show ?thesis
    proof (cases o1)
      case (Some e)
      then show ?thesis
        by (simp add: debateRound_v2_def roundOnLists_v2_def sameRound_def wv e1 l c1 Inr
            V_def [symmetric] cE_def [symmetric] a2 c2 [simplified])
    next
      case None
      obtain r2 s3 where c3: "runSingleRound_v2 client (DefenderModel llm)
          (RoleDefender @ nl @ DefPrompt llm) (V @ [cE]) s2 = (r2, s3)" by force
      have e2: "elems h2 T2 = V @ [cE]"
      proof -
        obtain T3 h3 where a3: "append_slice (growCap sys) h2 T2 [ce] = (T3, h3)" by force
        obtain H' h4 where a4: "append_slice (growCap sys) h3 history [cE, ce] = (H', h4)"
          by force
        from eff [OF a2 a3 a4] show ?thesis by simp
      qed
      show ?thesis
      proof (cases r2)
        case (Inl e)
        then show ?thesis
          by (simp add: debateRound_v2_def roundOnLists_v2_def sameRound_def wv e1 l c1 Inr
              V_def [symmetric] cE_def [symmetric] a2 c2 [simplified] None e2 c3)
      next
        case r2: (Inr def)
        define dE where "dE = \<lparr>Role = RoleDefender, Content = def\<rparr>"
        obtain T3 h3 where a3: "append_slice (growCap sys) h2 T2 [dE] = (T3, h3)" by force
        obtain H' h4 where a4: "append_slice (growCap sys) h3 history [cE, dE] = (H', h4)"
          by force
        obtain o2 s4 where c4: "logDebate sys (''Defender responded: '' @ def) s3 = (o2, s4)"
          by force
        note f = eff [OF a2 a3 a4]
        show ?thesis
        proof (cases o2)
          case (Some e)
          then show ?thesis
            by (simp add: debateRound_v2_def roundOnLists_v2_def sameRound_def wv e1 l c1 Inr
                V_def [symmetric] cE_def [symmetric] a2 c2 [simplified] None e2 c3 r2
                dE_def [symmetric] a3 c4 [simplified])
        next
          case o2: None
          then show ?thesis
            using f
            by (simp add: debateRound_v2_def roundOnLists_v2_def sameRound_def wv e1 l c1 Inr
                V_def [symmetric] cE_def [symmetric] a2 c2 [simplified] None e2 c3 r2
                dE_def [symmetric] a3 c4 [simplified] a4)
        qed
      qed
    qed
  qed
qed

lemma debateLoop_v2_refines:
  "inHeap h history \<Longrightarrow> 0 < len history \<Longrightarrow>
   snd (debateLoop_v2 sys client llm ce n h history rounds s)
     = snd (loopOnLists_v2 sys client llm ce n (elems h history) rounds s)
   \<and> sameLoop (fst (debateLoop_v2 sys client llm ce n h history rounds s))
        (fst (loopOnLists_v2 sys client llm ce n (elems h history) rounds s))"
proof (induction n arbitrary: h history rounds s)
  case 0
  then show ?case by (simp add: sameLoop_def)
next
  case (Suc n)
  obtain x s1 where d: "debateRound_v2 sys client llm ce h history s = (x, s1)" by force
  obtain y s1' where r: "roundOnLists_v2 sys client llm ce (elems h history) s = (y, s1')"
    by force
  from debateRound_v2_refines [OF Suc.prems, of sys client llm ce s] d r
  have s1: "s1' = s1" and same: "sameRound x y (len history)" by simp_all
  show ?case
  proof (cases x)
    case (Inl e)
    with same have "y = Inl e" by (simp add: sameRound_def)
    with Inl d r s1 show ?thesis by (simp add: sameLoop_def)
  next
    case (Inr p)
    obtain h1 history1 r1 where p: "p = (h1, history1, r1)" by (cases p)
    from same Inr p have y: "y = Inr (elems h1 history1, r1)" and wf: "inHeap h1 history1"
      and l: "0 < len history1" by (simp_all add: sameRound_def)
    from Suc.IH [OF wf l, of "rounds @ [r1]" s1] Inr p y d r s1
    show ?thesis by simp
  qed
qed

lemma literal_inHeap:
  "literal h xs = (s, h') \<Longrightarrow> inHeap h' s \<and> elems h' s = xs \<and> len s = length xs"
  by (auto simp: literal_def inHeap_def elems_def)

lemma runDebateFlow_v2_lists:
  "runDebateFlow_v2 sys client claim config llm s =
     (case logDebate sys (''Starting debate with claim: '' @ claim @ nl) s of
        (Some e, s1) \<Rightarrow> (Inl e, s1)
      | (None, s1) \<Rightarrow>
         (case loopOnLists_v2 sys client llm \<lparr>Role = RoleUser, Content = claim\<rparr>
                 (nat (Rounds config)) [\<lparr>Role = RoleUser, Content = claim\<rparr>] [] s1 of
            (Inl e, s2) \<Rightarrow> (Inl e, s2)
          | (Inr (history, rounds), s2) \<Rightarrow> (Inr rounds, s2)))"
proof -
  define ce where "ce = \<lparr>Role = RoleUser, Content = claim\<rparr>"
  obtain history h where lit: "literal emptyHeap [ce] = (history, h)" by force
  from literal_inHeap [OF lit] have wf: "inHeap h history" and e: "elems h history = [ce]"
    and l: "0 < len history" by simp_all
  obtain o1 s1 where lg: "logDebate sys (''Starting debate with claim: '' @ claim @ nl) s = (o1, s1)"
    by force
  show ?thesis
  proof (cases o1)
    case (Some a)
    then show ?thesis
      using lg by (simp add: runDebateFlow_v2_def ce_def [symmetric] lit)
  next
    case None
    obtain x s2 where d: "debateLoop_v2 sys client llm ce (nat (Rounds config)) h history [] s1 = (x, s2)"
      by force
    obtain y s2' where a: "loopOnLists_v2 sys client llm ce (nat (Rounds config)) [ce] [] s1 = (y, s2')"
      by force
    from debateLoop_v2_refines [OF wf l, of sys client llm ce "nat (Rounds config)" "[]" s1] d a e
    have s2: "s2' = s2" and same: "sameLoop x y" by simp_all
    show ?thesis
    proof (cases x)
      case (Inl e)
      with same have "y = Inl e" by (simp add: sameLoop_def)
      with Inl show ?thesis
        using lg None d a s2 by (simp add: runDebateFlow_v2_def ce_def [symmetric] lit)
    next
      case (Inr p)
      obtain h1 history1 R where p: "p = (h1, history1, R)" by (cases p)
      with same Inr have "y = Inr (elems h1 history1, R)" by (simp add: sameLoop_def)
      with Inr p show ?thesis
        using lg None d a s2 by (simp add: runDebateFlow_v2_def ce_def [symmetric] lit)
    qed
  qed
qed

section \<open>Rounds and loops when no call fails\<close>

lemma trimHistory_v1_eq:
  "0 \<le> m \<Longrightarrow> trimHistory_v1 history m = Inr (drop (length history - nat m) history)"
proof -
  assume m: "0 \<le> m"
  then have "nat (int (length history) - m) = length history - nat m" by linarith
  with m show ?thesis by (auto simp: trimHistory_v1_def)
qed

lemma debateRound_v1_challenger_fails:
  assumes "client (calls s) \<lparr>model_v1 = ChallengerModel llm,
              prompt_v1 = ChalPrompt llm @ nl @ transcript (drop (length history - 10) history)\<rparr>
           = Inl e"
  shows "debateRound_v1 client llm history s =
     (Inl e, s\<lparr>calls := calls s @ [\<lparr>model_v1 = ChallengerModel llm,
              prompt_v1 = ChalPrompt llm @ nl @ transcript (drop (length history - 10) history)\<rparr>]\<rparr>)"
  using assms
  by (simp add: debateRound_v1_def trimHistory_v1_eq MaxHistory_v1_def runSingleRound_v1_eq
      callGenerate_def)

lemma debateRound_v1_challenger_ok:
  assumes "client (calls s) \<lparr>model_v1 = ChallengerModel llm,
              prompt_v1 = ChalPrompt llm @ nl @ transcript (drop (length history - 10) history)\<rparr>
           = Inr chal"
  shows "debateRound_v1 client llm history s =
     (case client (calls s @ [\<lparr>model_v1 = ChallengerModel llm,
              prompt_v1 = ChalPrompt llm @ nl @ transcript (drop (length history - 10) history)\<rparr>])
             \<lparr>model_v1 = DefenderModel llm,
              prompt_v1 = DefPrompt llm @ nl @ transcript (drop (length history - 10) history
                    @ [\<lparr>Role = RoleChallenger, Content = chal\<rparr>])\<rparr> of
        Inl e \<Rightarrow> Inl e
      | Inr def \<Rightarrow> Inr (drop (length history - 10) history
                    @ [\<lparr>Role = RoleChallenger, Content = chal\<rparr>, \<lparr>Role = RoleDefender, Content = def\<rparr>],
                   \<lparr>Challenger = chal, Defender = def\<rparr>),
      s\<lparr>calls := calls s @ [\<lparr>model_v1 = ChallengerModel llm,
              prompt_v1 = ChalPrompt llm @ nl @ transcript (drop (length history - 10) history)\<rparr>,
            \<lparr>model_v1 = DefenderModel llm,
              prompt_v1 = DefPrompt llm @ nl @ transcript (drop (length history - 10) history
                    @ [\<lparr>Role = RoleChallenger, Content = chal\<rparr>])\<rparr>]\<rparr>)"
  using assms
  by (simp add: debateRound_v1_def trimHistory_v1_eq MaxHistory_v1_def runSingleRound_v1_eq
      callGenerate_def split: sum.splits)

lemma debateLoop_v1_never_fails:
  assumes ok: "\<forall>before q. \<not> isl (client before q)"
  shows "\<exists>history1 rounds1 new.
           debateLoop_v1 client llm n history rounds s
             = (Inr (history1, rounds1), s\<lparr>calls := calls s @ new\<rparr>)
           \<and> length rounds1 = length rounds + n \<and> length new = 2 * n
           \<and> alternating_v1 llm new \<and> length history1 \<le> length history + 2 * n"
proof (induction n arbitrary: history rounds s)
  case 0
  show ?case by simp
next
  case (Suc n)
  define q1 where "q1 = \<lparr>model_v1 = ChallengerModel llm,
              prompt_v1 = ChalPrompt llm @ nl @ transcript (drop (length history - 10) history)\<rparr>"
  from ok obtain chal where c1: "client (calls s) q1 = Inr chal"
    by (metis isl_def sum.exhaust_sel sum.collapse(2))
  define q2 where "q2 = \<lparr>model_v1 = DefenderModel llm,
              prompt_v1 = DefPrompt llm @ nl @ transcript (drop (length history - 10) history
                    @ [\<lparr>Role = RoleChallenger, Content = chal\<rparr>])\<rparr>"
  from ok obtain def where c2: "client (calls s @ [q1]) q2 = Inr def"
    by (metis isl_def sum.exhaust_sel sum.collapse(2))
  define history1 where "history1 = drop (length history - 10) history
       @ [\<lparr>Role = RoleChallenger, Content = chal\<rparr>, \<lparr>Role = RoleDefender, Content = def\<rparr>]"
  have r: "debateRound_v1 client llm history s =
       (Inr (history1, \<lparr>Challenger = chal, Defender = def\<rparr>), s\<lparr>calls := calls s @ [q1, q2]\<rparr>)"
    using debateRound_v1_challenger_ok [of client s llm history chal] c1 c2
    by (simp add: q1_def q2_def history1_def)
  from Suc.IH [of history1 "rounds @ [\<lparr>Challenger = chal, Defender = def\<rparr>]"
      "s\<lparr>calls := calls s @ [q1, q2]\<rparr>"]
  obtain history2 rounds2 new where
    l: "debateLoop_v1 client llm n history1 (rounds @ [\<lparr>Challenger = chal, Defender = def\<rparr>])
          (s\<lparr>calls := calls s @ [q1, q2]\<rparr>)
        = (Inr (history2, rounds2), s\<lparr>calls := calls s @ [q1, q2] @ new\<rparr>)"
    and n: "length rounds2 = length rounds + Suc n" "length new = 2 * n" "alternating_v1 llm new"
      "length history2 \<le> length history1 + 2 * n"
    by auto
  have a: "alternating_v1 llm ([q1, q2] @ new)"
    using n(3) by (simp add: q1_def q2_def)
  have "length history1 \<le> length history + 2" by (simp add: history1_def)
  with n(4) have h: "length history2 \<le> length history + 2 * Suc n" by simp
  show ?case
    using r l n(1,2) a h
    by (intro exI [of _ history2] exI [of _ rounds2] exI [of _ "[q1, q2] @ new"]) simp
qed

lemma logDebate_ok:
  "printErr sys (stdout s) (nl @ '' Logged on: '' @ nowString sys (stdout s) @ nl @ text @ nl) = None
   \<Longrightarrow> logDebate sys text s =
     (None, s\<lparr>stdout := stdout s @
        [nl @ '' Logged on: '' @ nowString sys (stdout s) @ nl @ text @ nl]\<rparr>)"
  by (simp add: logDebate_def Let_def)

lemma logDebate_calls: "calls (snd (logDebate sys text s)) = calls s"
  by (simp add: logDebate_def Let_def split: option.splits)

lemma logDebate_files: "files (snd (logDebate sys text s)) = files s"
  by (simp add: logDebate_def Let_def split: option.splits)

lemma logDebate_never_fails:
  "\<forall>out text. printErr sys out text = None \<Longrightarrow>
   \<exists>line. logDebate sys text s = (None, s\<lparr>stdout := stdout s @ [line]\<rparr>)"
proof -
  assume a: "\<forall>out text. printErr sys out text = None"
  have "logDebate sys text s = (None, s\<lparr>stdout := stdout s @
        [nl @ '' Logged on: '' @ nowString sys (stdout s) @ nl @ text @ nl]\<rparr>)"
    by (rule logDebate_ok) (simp add: a)
  then show ?thesis by (rule exI)
qed

lemma roundOnLists_v2_ok:
  assumes lg: "\<forall>out text. printErr sys out text = None"
    and c1: "client (calls s) \<lparr>model_v2 = ChallengerModel llm,
               system_v2 = RoleChallenger @ nl @ ChalPrompt llm,
               prompt_v2 = transcript ((drop (length history - 101) history)[0 := ce])\<rparr>
             = Inr chal"
    and c2: "client (calls s @ [\<lparr>model_v2 = ChallengerModel llm,
               system_v2 = RoleChallenger @ nl @ ChalPrompt llm,
               prompt_v2 = transcript ((drop (length history - 101) history)[0 := ce])\<rparr>])
              \<lparr>model_v2 = DefenderModel llm,
               system_v2 = RoleDefender @ nl @ DefPrompt llm,
               prompt_v2 = transcript ((drop (length history - 101) history)[0 := ce]
                  @ [\<lparr>Role = RoleChallenger, Content = chal\<rparr>])\<rparr>
             = Inr def"
  shows "\<exists>out. roundOnLists_v2 sys client llm ce history s =
     (Inr (history[length history - 101 := ce]
             @ [\<lparr>Role = RoleChallenger, Content = chal\<rparr>, \<lparr>Role = RoleDefender, Content = def\<rparr>],
           \<lparr>Challenger = chal, Defender = def\<rparr>),
      s\<lparr>calls := calls s @ [\<lparr>model_v2 = ChallengerModel llm,
               system_v2 = RoleChallenger @ nl @ ChalPrompt llm,
               prompt_v2 = transcript ((drop (length history - 101) history)[0 := ce])\<rparr>,
              \<lparr>model_v2 = DefenderModel llm,
               system_v2 = RoleDefender @ nl @ DefPrompt llm,
               prompt_v2 = transcript ((drop (length history - 101) history)[0 := ce]
                  @ [\<lparr>Role = RoleChallenger, Content = chal\<rparr>])\<rparr>],
         stdout := stdout s @ out\<rparr>)"
proof -
  define l1 where "l1 = nl @ '' Logged on: '' @ nowString sys (stdout s) @ nl
      @ (''Challenger responded: '' @ chal) @ nl"
  define l2 where "l2 = nl @ '' Logged on: '' @ nowString sys (stdout s @ [l1]) @ nl
      @ (''Defender responded: '' @ def) @ nl"
  show ?thesis
    using c1 c2 lg
    by (intro exI [of _ "[l1, l2]"])
       (simp add: roundOnLists_v2_def runSingleRound_v2_eq callGenerate_def logDebate_def
          Let_def l1_def l2_def)
qed

lemma loopOnLists_v2_never_fails:
  assumes ok: "\<forall>before q. \<not> isl (client before q)"
    and lg: "\<forall>out text. printErr sys out text = None"
  shows "\<exists>history1 rounds1 new out.
           loopOnLists_v2 sys client llm ce n history rounds s
             = (Inr (history1, rounds1), s\<lparr>calls := calls s @ new, stdout := stdout s @ out\<rparr>)
           \<and> length rounds1 = length rounds + n \<and> length new = 2 * n
           \<and> alternating_v2 llm new \<and> length history1 = length history + 2 * n"
proof (induction n arbitrary: history rounds s)
  case 0
  show ?case
    by (intro exI [of _ history] exI [of _ rounds] exI [of _ "[]"]) simp
next
  case (Suc n)
  define q1 where "q1 = \<lparr>model_v2 = ChallengerModel llm,
               system_v2 = RoleChallenger @ nl @ ChalPrompt llm,
               prompt_v2 = transcript ((drop (length history - 101) history)[0 := ce])\<rparr>"
  from ok obtain chal where c1: "client (calls s) q1 = Inr chal"
    by (metis isl_def sum.exhaust_sel sum.collapse(2))
  define q2 where "q2 = \<lparr>model_v2 = DefenderModel llm,
               system_v2 = RoleDefender @ nl @ DefPrompt llm,
               prompt_v2 = transcript ((drop (length history - 101) history)[0 := ce]
                  @ [\<lparr>Role = RoleChallenger, Content = chal\<rparr>])\<rparr>"
  from ok obtain def where c2: "client (calls s @ [q1]) q2 = Inr def"
    by (metis isl_def sum.exhaust_sel sum.collapse(2))
  define history1 where "history1 = history[length history - 101 := ce]
       @ [\<lparr>Role = RoleChallenger, Content = chal\<rparr>, \<lparr>Role = RoleDefender, Content = def\<rparr>]"
  from roundOnLists_v2_ok [OF lg, of client s llm history ce chal def] c1 c2
  obtain out1 where r: "roundOnLists_v2 sys client llm ce history s =
       (Inr (history1, \<lparr>Challenger = chal, Defender = def\<rparr>),
        s\<lparr>calls := calls s @ [q1, q2], stdout := stdout s @ out1\<rparr>)"
    by (auto simp: q1_def q2_def history1_def)
  from Suc.IH [of history1 "rounds @ [\<lparr>Challenger = chal, Defender = def\<rparr>]"
      "s\<lparr>calls := calls s @ [q1, q2], stdout := stdout s @ out1\<rparr>"]
  obtain history2 rounds2 new out2 where
    l: "loopOnLists_v2 sys client llm ce n history1
          (rounds @ [\<lparr>Challenger = chal, Defender = def\<rparr>])
          (s\<lparr>calls := calls s @ [q1, q2], stdout := stdout s @ out1\<rparr>)
        = (Inr (history2, rounds2),
           s\<lparr>calls := calls s @ [q1, q2] @ new, stdout := stdout s @ out1 @ out2\<rparr>)"
    and n: "length rounds2 = length rounds + Suc n" "length new = 2 * n" "alternating_v2 llm new"
      "length history2 = length history1 + 2 * n"
    by auto
  have a: "alternating_v2 llm ([q1, q2] @ new)"
    using n(3) by (simp add: q1_def q2_def)
  have "length history1 = length history + 2" by (simp add: history1_def)
  with n(4) have h: "length history2 = length history + 2 * Suc n" by simp
  show ?case
    using r l n(1,2) a h
    by (intro exI [of _ history2] exI [of _ rounds2] exI [of _ "[q1, q2] @ new"]
        exI [of _ "out1 @ out2"]) simp
qed

lemma loopOnLists_v2_add:
  "loopOnLists_v2 sys client llm ce (m + n) history rounds s =
     (case loopOnLists_v2 sys client llm ce m history rounds s of
        (Inl e, s1) \<Rightarrow> (Inl e, s1)
      | (Inr (history1, rounds1), s1) \<Rightarrow> loopOnLists_v2 sys client llm ce n history1 rounds1 s1)"
  by (induction m arbitrary: history rounds s) (auto split: sum.splits prod.splits)

lemma debateLoop_v1_add:
  "debateLoop_v1 client llm (m + n) history rounds s =
     (case debateLoop_v1 client llm m history rounds s of
        (Inl e, s1) \<Rightarrow> (Inl e, s1)
      | (Inr (history1, rounds1), s1) \<Rightarrow> debateLoop_v1 client llm n history1 rounds1 s1)"
  by (induction m arbitrary: history rounds s) (auto split: sum.splits prod.splits)

section \<open>Runs with the client that always answers, and the view of an iteration\<close>

lemma fake_round_v2:
  assumes "history \<noteq> []" "hd history = ce" "length history \<le> 101"
  shows "\<exists>out. roundOnLists_v2 sys0 fakeLLM llm ce history s =
     (Inr (history @ [chal0, def0], \<lparr>Challenger = ''ok'', Defender = ''ok''\<rparr>),
      s\<lparr>calls := calls s @ [\<lparr>model_v2 = ChallengerModel llm,
               system_v2 = RoleChallenger @ nl @ ChalPrompt llm,
               prompt_v2 = transcript history\<rparr>,
              \<lparr>model_v2 = DefenderModel llm,
               system_v2 = RoleDefender @ nl @ DefPrompt llm,
               prompt_v2 = transcript (history @ [chal0])\<rparr>],
         stdout := stdout s @ out\<rparr>)"
proof -
  have lg: "\<forall>out text. printErr sys0 out text = None" by (simp add: sys0_def)
  have k: "length history - 101 = 0" using assms(3) by simp
  have h: "history[0 := ce] = history"
    using assms(1,2) by (cases history) simp_all
  from roundOnLists_v2_ok [OF lg, of fakeLLM s llm history ce "''ok''" "''ok''"]
  show ?thesis
    by (simp add: fakeLLM_def k h chal0_def def0_def)
qed

lemma fake_rounds_v2:
  assumes "history \<noteq> []" "hd history = ce" "length history + 2 * n \<le> 103"
  shows "\<exists>s1. loopOnLists_v2 sys0 fakeLLM llm ce n history rounds s =
           (Inr (history @ concat (replicate n [chal0, def0]),
                 rounds @ replicate n \<lparr>Challenger = ''ok'', Defender = ''ok''\<rparr>), s1)
         \<and> length (calls s1) = length (calls s) + 2 * n"
  using assms
proof (induction n arbitrary: history rounds s)
  case 0
  then show ?case by simp
next
  case (Suc n)
  from Suc.prems have l: "length history \<le> 101" by simp
  from fake_round_v2 [OF Suc.prems(1,2) l, of llm s]
  obtain out where r: "roundOnLists_v2 sys0 fakeLLM llm ce history s =
     (Inr (history @ [chal0, def0], \<lparr>Challenger = ''ok'', Defender = ''ok''\<rparr>),
      s\<lparr>calls := calls s @ [\<lparr>model_v2 = ChallengerModel llm,
               system_v2 = RoleChallenger @ nl @ ChalPrompt llm,
               prompt_v2 = transcript history\<rparr>,
              \<lparr>model_v2 = DefenderModel llm,
               system_v2 = RoleDefender @ nl @ DefPrompt llm,
               prompt_v2 = transcript (history @ [chal0])\<rparr>],
         stdout := stdout s @ out\<rparr>)" by blast
  define s' where "s' = s\<lparr>calls := calls s @ [\<lparr>model_v2 = ChallengerModel llm,
               system_v2 = RoleChallenger @ nl @ ChalPrompt llm,
               prompt_v2 = transcript history\<rparr>,
              \<lparr>model_v2 = DefenderModel llm,
               system_v2 = RoleDefender @ nl @ DefPrompt llm,
               prompt_v2 = transcript (history @ [chal0])\<rparr>],
         stdout := stdout s @ out\<rparr>"
  have p: "history @ [chal0, def0] \<noteq> []" "hd (history @ [chal0, def0]) = ce"
    "length (history @ [chal0, def0]) + 2 * n \<le> 103"
    using Suc.prems by simp_all
  from Suc.IH [OF p, of "rounds @ [\<lparr>Challenger = ''ok'', Defender = ''ok''\<rparr>]" s']
  obtain s1 where
    l: "loopOnLists_v2 sys0 fakeLLM llm ce n (history @ [chal0, def0])
          (rounds @ [\<lparr>Challenger = ''ok'', Defender = ''ok''\<rparr>]) s' =
        (Inr ((history @ [chal0, def0]) @ concat (replicate n [chal0, def0]),
              (rounds @ [\<lparr>Challenger = ''ok'', Defender = ''ok''\<rparr>])
              @ replicate n \<lparr>Challenger = ''ok'', Defender = ''ok''\<rparr>), s1)"
    and c: "length (calls s1) = length (calls s') + 2 * n"
    by blast
  have u: "loopOnLists_v2 sys0 fakeLLM llm ce (Suc n) history rounds s =
      loopOnLists_v2 sys0 fakeLLM llm ce n (history @ [chal0, def0])
          (rounds @ [\<lparr>Challenger = ''ok'', Defender = ''ok''\<rparr>]) s'"
    using r by (simp add: s'_def)
  have "length (calls s') = length (calls s) + 2" by (simp add: s'_def)
  with c have c': "length (calls s1) = length (calls s) + 2 * Suc n" by simp
  show ?case
    unfolding u l using c' by (intro exI [of _ s1]) simp
qed

lemma length_concat_pairs: "length (concat (replicate n [a, b])) = 2 * n"
  by (induction n) simp_all

lemma fake_round_v1:
  "debateRound_v1 fakeLLM llm history s =
     (Inr (drop (length history - 10) history @ [chal0, def0],
           \<lparr>Challenger = ''ok'', Defender = ''ok''\<rparr>),
      s\<lparr>calls := calls s @ [\<lparr>model_v1 = ChallengerModel llm,
               prompt_v1 = ChalPrompt llm @ nl @ transcript (drop (length history - 10) history)\<rparr>,
              \<lparr>model_v1 = DefenderModel llm,
               prompt_v1 = DefPrompt llm @ nl
                  @ transcript (drop (length history - 10) history @ [chal0])\<rparr>]\<rparr>)"
  using debateRound_v1_challenger_ok [of fakeLLM s llm history "''ok''"]
  by (simp add: fakeLLM_def chal0_def def0_def)

lemma fake_rounds_v1:
  assumes "length history + 2 * n \<le> 12"
  shows "\<exists>s1. debateLoop_v1 fakeLLM llm n history rounds s =
           (Inr (history @ concat (replicate n [chal0, def0]),
                 rounds @ replicate n \<lparr>Challenger = ''ok'', Defender = ''ok''\<rparr>), s1)
         \<and> length (calls s1) = length (calls s) + 2 * n"
  using assms
proof (induction n arbitrary: history rounds s)
  case 0
  then show ?case by simp
next
  case (Suc n)
  from Suc.prems have l: "length history \<le> 10" by simp
  define s' where "s' = s\<lparr>calls := calls s @ [\<lparr>model_v1 = ChallengerModel llm,
               prompt_v1 = ChalPrompt llm @ nl @ transcript history\<rparr>,
              \<lparr>model_v1 = DefenderModel llm,
               prompt_v1 = DefPrompt llm @ nl @ transcript (history @ [chal0])\<rparr>]\<rparr>"
  have p: "length (history @ [chal0, def0]) + 2 * n \<le> 12"
    using Suc.prems by simp
  from Suc.IH [OF p, of "rounds @ [\<lparr>Challenger = ''ok'', Defender = ''ok''\<rparr>]" s']
  obtain s1 where
    l1: "debateLoop_v1 fakeLLM llm n (history @ [chal0, def0])
          (rounds @ [\<lparr>Challenger = ''ok'', Defender = ''ok''\<rparr>]) s' =
        (Inr ((history @ [chal0, def0]) @ concat (replicate n [chal0, def0]),
              (rounds @ [\<lparr>Challenger = ''ok'', Defender = ''ok''\<rparr>])
              @ replicate n \<lparr>Challenger = ''ok'', Defender = ''ok''\<rparr>), s1)"
    and c: "length (calls s1) = length (calls s') + 2 * n"
    by blast
  have u: "debateLoop_v1 fakeLLM llm (Suc n) history rounds s =
      debateLoop_v1 fakeLLM llm n (history @ [chal0, def0])
          (rounds @ [\<lparr>Challenger = ''ok'', Defender = ''ok''\<rparr>]) s'"
    using fake_round_v1 [of llm history s] l by (simp add: s'_def)
  have "length (calls s') = length (calls s) + 2" by (simp add: s'_def)
  with c have c': "length (calls s1) = length (calls s) + 2 * Suc n" by simp
  show ?case
    unfolding u l1 using c' by (intro exI [of _ s1]) simp
qed

lemma trimHistory_v2_elems:
  assumes "inHeap h history" "0 \<le> m"
  shows "\<exists>t. trimHistory_v2 history m = Inr t
           \<and> elems h t = drop (len history - nat m) (elems h history)"
  using assms
  by (simp add: trimHistory_v2_eq elems_def inHeap_def drop_take add.commute min_def)

lemma windowView_v2_effect:
  assumes "inHeap h history" "0 < len history"
  shows "\<exists>t h1. windowView_v2 h history ce = Inr (t, h1)
           \<and> elems h1 t = windowOnLists_v2 ce (elems h history)
           \<and> elems h1 history = (elems h history)[len history - 101 := ce]"
  using assms
  by (simp add: windowView_v2_eq elems_view elems_clobbered windowOnLists_v2_def length_elems)

lemma windowOnLists_v2_long:
  assumes "101 < length history"
  shows "windowOnLists_v2 ce history = ce # drop (length history - 100) history"
proof -
  have "drop (length history - 101) history =
          history ! (length history - 101) # drop (Suc (length history - 101)) history"
    using assms by (simp add: Cons_nth_drop_Suc)
  moreover have "Suc (length history - 101) = length history - 100"
    using assms by simp
  ultimately show ?thesis by (simp add: windowOnLists_v2_def)
qed

lemma runDebateFlow_v2_fake_calls:
  assumes "length history + 2 * n \<le> 101" "history \<noteq> []" "hd history = ce"
  shows "\<exists>s1 out. snd (loopOnLists_v2 sys0 fakeLLM llm ce (n + 1) history rounds s) =
     s1\<lparr>calls := calls s1 @ [\<lparr>model_v2 = ChallengerModel llm,
               system_v2 = RoleChallenger @ nl @ ChalPrompt llm,
               prompt_v2 = transcript (history @ concat (replicate n [chal0, def0]))\<rparr>,
              \<lparr>model_v2 = DefenderModel llm,
               system_v2 = RoleDefender @ nl @ DefPrompt llm,
               prompt_v2 = transcript ((history @ concat (replicate n [chal0, def0])) @ [chal0])\<rparr>],
         stdout := stdout s1 @ out\<rparr>"
proof -
  from assms(1) have a: "length history + 2 * n \<le> 103" by simp
  from fake_rounds_v2 [OF assms(2,3) a, of llm rounds s]
  obtain s1 where l: "loopOnLists_v2 sys0 fakeLLM llm ce n history rounds s =
           (Inr (history @ concat (replicate n [chal0, def0]),
                 rounds @ replicate n \<lparr>Challenger = ''ok'', Defender = ''ok''\<rparr>), s1)"
    by blast
  have p: "history @ concat (replicate n [chal0, def0]) \<noteq> []"
    "hd (history @ concat (replicate n [chal0, def0])) = ce"
    "length (history @ concat (replicate n [chal0, def0])) \<le> 101"
    using assms by (simp_all add: length_concat_pairs)
  from fake_round_v2 [OF p, of llm s1]
  obtain out where r: "roundOnLists_v2 sys0 fakeLLM llm ce
        (history @ concat (replicate n [chal0, def0])) s1 =
     (Inr ((history @ concat (replicate n [chal0, def0])) @ [chal0, def0],
           \<lparr>Challenger = ''ok'', Defender = ''ok''\<rparr>),
      s1\<lparr>calls := calls s1 @ [\<lparr>model_v2 = ChallengerModel llm,
               system_v2 = RoleChallenger @ nl @ ChalPrompt llm,
               prompt_v2 = transcript (history @ concat (replicate n [chal0, def0]))\<rparr>,
              \<lparr>model_v2 = DefenderModel llm,
               system_v2 = RoleDefender @ nl @ DefPrompt llm,
               prompt_v2 = transcript ((history @ concat (replicate n [chal0, def0])) @ [chal0])\<rparr>],
         stdout := stdout s1 @ out\<rparr>)" by blast
  show ?thesis
    unfolding loopOnLists_v2_add l
    by (intro exI [of _ s1] exI [of _ out]) (simp add: r)
qed

lemma historyAfter_v2_lists:
  "historyAfter_v2 sys client claim llm n s =
     (case logDebate sys (''Starting debate with claim: '' @ claim @ nl) s of
        (Some e, s1) \<Rightarrow> None
      | (None, s1) \<Rightarrow>
         (case loopOnLists_v2 sys client llm \<lparr>Role = RoleUser, Content = claim\<rparr> n
                 [\<lparr>Role = RoleUser, Content = claim\<rparr>] [] s1 of
            (Inl e, s2) \<Rightarrow> None
          | (Inr (history, rounds), s2) \<Rightarrow> Some history))"
proof -
  define ce where "ce = \<lparr>Role = RoleUser, Content = claim\<rparr>"
  obtain history h where lit: "literal emptyHeap [ce] = (history, h)" by force
  from literal_inHeap [OF lit] have wf: "inHeap h history" and e: "elems h history = [ce]"
    and l: "0 < len history" by simp_all
  obtain o1 s1 where lg: "logDebate sys (''Starting debate with claim: '' @ claim @ nl) s = (o1, s1)"
    by force
  show ?thesis
  proof (cases o1)
    case (Some a)
    then show ?thesis
      using lg by (simp add: historyAfter_v2_def ce_def [symmetric] lit)
  next
    case None
    obtain x s2 where d: "debateLoop_v2 sys client llm ce n h history [] s1 = (x, s2)"
      by force
    obtain y s2' where a: "loopOnLists_v2 sys client llm ce n [ce] [] s1 = (y, s2')"
      by force
    from debateLoop_v2_refines [OF wf l, of sys client llm ce n "[]" s1] d a e
    have s2: "s2' = s2" and same: "sameLoop x y" by simp_all
    show ?thesis
    proof (cases x)
      case (Inl e)
      with same have "y = Inl e" by (simp add: sameLoop_def)
      with Inl show ?thesis
        using lg None d a s2 by (simp add: historyAfter_v2_def ce_def [symmetric] lit)
    next
      case (Inr p)
      obtain h1 history1 R where p: "p = (h1, history1, R)" by (cases p)
      with same Inr have "y = Inr (elems h1 history1, R)" by (simp add: sameLoop_def)
      with Inr p show ?thesis
        using lg None d a s2 by (simp add: historyAfter_v2_def ce_def [symmetric] lit)
    qed
  qed
qed

lemma windowView_v2_keeps_short_history:
  assumes "inHeap h history" "0 < len history" "len history \<le> 101"
    "elems h history ! 0 = ce"
  shows "\<exists>t h1. windowView_v2 h history ce = Inr (t, h1) \<and> elems h1 history = elems h history"
proof -
  from windowView_v2_effect [OF assms(1,2), of ce]
  obtain t h1 where w: "windowView_v2 h history ce = Inr (t, h1)"
    and e: "elems h1 history = (elems h history)[len history - 101 := ce]" by blast
  from assms(3) have "len history - 101 = 0" by simp
  with e assms(4) have "elems h1 history = elems h history"
    using list_update_id [of "elems h history" 0] by simp
  with w show ?thesis by blast
qed

lemma windowView_v2_overwrites_long_history:
  assumes "inHeap h history" "101 < len history"
    "elems h history ! (len history - 101) \<noteq> ce"
  shows "\<exists>t h1. windowView_v2 h history ce = Inr (t, h1) \<and> elems h1 history \<noteq> elems h history
           \<and> elems h1 history = (elems h history)[len history - 101 := ce]"
proof -
  from assms(2) have p: "0 < len history" by simp
  from windowView_v2_effect [OF assms(1) p, of ce]
  obtain t h1 where w: "windowView_v2 h history ce = Inr (t, h1)"
    and e: "elems h1 history = (elems h history)[len history - 101 := ce]" by blast
  have "length (elems h history) = len history" using assms(1) by (rule length_elems)
  with assms(2,3) have "(elems h history)[len history - 101 := ce] \<noteq> elems h history"
    by (metis diff_less length_greater_0_conv less_imp_diff_less list.size(3) not_less_zero
        nth_list_update_eq zero_less_numeral)
  with w e show ?thesis by auto
qed

section \<open>The command line: the trial round and the estimator\<close>

lemma okServer_v1: "NewOllamaClient_v1 okServer = fakeLLM"
  by (simp add: NewOllamaClient_v1_def okServer_def fakeLLM_def Generate_v1_unfold fun_eq_iff)

lemma okServer_v2: "NewOllamaClient_v2 okServer = fakeLLM"
  by (simp add: NewOllamaClient_v2_def okServer_def fakeLLM_def Generate_v2_unfold fun_eq_iff)

lemma debateRound_v1_frame:
  "files (snd (debateRound_v1 client llm history s)) = files s
   \<and> stdout (snd (debateRound_v1 client llm history s)) = stdout s
   \<and> length (calls (snd (debateRound_v1 client llm history s))) \<le> length (calls s) + 2"
  by (simp add: debateRound_v1_def trimHistory_v1_eq MaxHistory_v1_def runSingleRound_v1_eq
      callGenerate_def Let_def split: sum.splits)

lemma trial_v1_frame:
  "files (snd (runDebateFlow_v1 client claim
       \<lparr>Rounds = 1, Duration = [], InputFile = [], OutputFile = []\<rparr> llm s)) = files s
   \<and> stdout (snd (runDebateFlow_v1 client claim
       \<lparr>Rounds = 1, Duration = [], InputFile = [], OutputFile = []\<rparr> llm s)) = stdout s
   \<and> length (calls (snd (runDebateFlow_v1 client claim
       \<lparr>Rounds = 1, Duration = [], InputFile = [], OutputFile = []\<rparr> llm s)))
      \<le> length (calls s) + 2"
proof -
  obtain x s1 where r: "debateRound_v1 client llm [\<lparr>Role = RoleUser, Content = claim\<rparr>] s = (x, s1)"
    by force
  from debateRound_v1_frame [of client llm "[\<lparr>Role = RoleUser, Content = claim\<rparr>]" s] r
  have "files s1 = files s" "stdout s1 = stdout s" "length (calls s1) \<le> length (calls s) + 2"
    by simp_all
  then show ?thesis
    by (simp add: runDebateFlow_v1_def r split: sum.splits prod.splits)
qed

lemma roundOnLists_v2_frame:
  "files (snd (roundOnLists_v2 sys client llm ce history s)) = files s
   \<and> length (calls (snd (roundOnLists_v2 sys client llm ce history s))) \<le> length (calls s) + 2"
  by (simp add: roundOnLists_v2_def runSingleRound_v2_eq callGenerate_def logDebate_def Let_def
      split: sum.splits option.splits)

lemma trial_v2_frame:
  "files (snd (runDebateFlow_v2 sys client claim
       \<lparr>Rounds = 1, Duration = [], InputFile = [], OutputFile = []\<rparr> llm s)) = files s
   \<and> length (calls (snd (runDebateFlow_v2 sys client claim
       \<lparr>Rounds = 1, Duration = [], InputFile = [], OutputFile = []\<rparr> llm s)))
      \<le> length (calls s) + 2"
proof -
  obtain o1 s0 where lg: "logDebate sys (''Starting debate with claim: '' @ claim @ nl) s = (o1, s0)"
    by force
  from logDebate_calls [of sys "''Starting debate with claim: '' @ claim @ nl" s]
    logDebate_files [of sys "''Starting debate with claim: '' @ claim @ nl" s] lg
  have s0: "calls s0 = calls s" "files s0 = files s" by simp_all
  obtain x s1 where r: "roundOnLists_v2 sys client llm \<lparr>Role = RoleUser, Content = claim\<rparr>
      [\<lparr>Role = RoleUser, Content = claim\<rparr>] s0 = (x, s1)"
    by force
  from roundOnLists_v2_frame [of sys client llm "\<lparr>Role = RoleUser, Content = claim\<rparr>"
      "[\<lparr>Role = RoleUser, Content = claim\<rparr>]" s0] r s0
  have "files s1 = files s" "length (calls s1) \<le> length (calls s) + 2"
    by simp_all
  then show ?thesis
    unfolding runDebateFlow_v2_lists lg
    using s0 by (simp add: r split: sum.splits prod.splits option.splits)
qed

lemma estimateRounds_v1_frame:
  "files (snd (estimateRounds_v1 sys client claim llm d s)) = files s
   \<and> length (calls (snd (estimateRounds_v1 sys client claim llm d s))) \<le> length (calls s) + 2
   \<and> (isl (parseDuration sys d) \<longrightarrow> isl (fst (estimateRounds_v1 sys client claim llm d s)))"
proof -
  obtain x s1 where t: "runDebateFlow_v1 client claim
       \<lparr>Rounds = 1, Duration = [], InputFile = [], OutputFile = []\<rparr> llm s = (x, s1)" by force
  from trial_v1_frame [of client claim llm s] t
  have "files s1 = files s" "length (calls s1) \<le> length (calls s) + 2" by simp_all
  then show ?thesis
    by (simp add: estimateRounds_v1_def t Let_def split: sum.splits)
qed

lemma estimateRounds_v2_frame:
  "files (snd (estimateRounds_v2 sys client claim llm d s)) = files s
   \<and> length (calls (snd (estimateRounds_v2 sys client claim llm d s))) \<le> length (calls s) + 2
   \<and> (isl (parseDuration sys d) \<longrightarrow> isl (fst (estimateRounds_v2 sys client claim llm d s)))"
proof -
  obtain x s1 where t: "runDebateFlow_v2 sys client claim
       \<lparr>Rounds = 1, Duration = [], InputFile = [], OutputFile = []\<rparr> llm s = (x, s1)" by force
  from trial_v2_frame [of sys client claim llm s] t
  have "files s1 = files s" "length (calls s1) \<le> length (calls s) + 2" by simp_all
  then show ?thesis
    by (simp add: estimateRounds_v2_def t Let_def split: sum.splits)
qed

lemma runDebateFlow_v1_never_fails:
  assumes "\<forall>before q. \<not> isl (client before q)"
  shows "\<exists>rounds new.
            runDebateFlow_v1 client claim config llm s
              = (Inr rounds, s\<lparr>calls := calls s @ new\<rparr>)
            \<and> length rounds = nat (Rounds config) \<and> length new = 2 * nat (Rounds config)
            \<and> alternating_v1 llm new"
  using debateLoop_v1_never_fails [OF assms, of llm "nat (Rounds config)"
      "[\<lparr>Role = RoleUser, Content = claim\<rparr>]" "[]" s]
  by (auto simp: runDebateFlow_v1_def)

lemma runDebateFlow_v2_never_fails:
  assumes "\<forall>before q. \<not> isl (client before q)"
    and "\<forall>out text. printErr sys out text = None"
  shows "\<exists>rounds new out.
            runDebateFlow_v2 sys client claim config llm s
              = (Inr rounds, s\<lparr>calls := calls s @ new, stdout := stdout s @ out\<rparr>)
            \<and> length rounds = nat (Rounds config) \<and> length new = 2 * nat (Rounds config)
            \<and> alternating_v2 llm new"
proof -
  from logDebate_never_fails [OF assms(2), of "''Starting debate with claim: '' @ claim @ nl" s]
  obtain line where lg: "logDebate sys (''Starting debate with claim: '' @ claim @ nl) s
      = (None, s\<lparr>stdout := stdout s @ [line]\<rparr>)" by blast
  from loopOnLists_v2_never_fails [OF assms, of llm "\<lparr>Role = RoleUser, Content = claim\<rparr>"
      "nat (Rounds config)" "[\<lparr>Role = RoleUser, Content = claim\<rparr>]" "[]"
      "s\<lparr>stdout := stdout s @ [line]\<rparr>"]
  obtain history1 rounds1 new out where
    l: "loopOnLists_v2 sys client llm \<lparr>Role = RoleUser, Content = claim\<rparr>
          (nat (Rounds config)) [\<lparr>Role = RoleUser, Content = claim\<rparr>] []
          (s\<lparr>stdout := stdout s @ [line]\<rparr>)
        = (Inr (history1, rounds1),
           s\<lparr>calls := calls s @ new, stdout := stdout s @ [line] @ out\<rparr>)"
    and n: "length rounds1 = nat (Rounds config)" "length new = 2 * nat (Rounds config)"
      "alternating_v2 llm new"
    by auto
  show ?thesis
    using n
    by (intro exI [of _ rounds1] exI [of _ new] exI [of _ "[line] @ out"])
       (simp add: runDebateFlow_v2_lists lg [simplified] l [simplified])
qed

lemma parseFlags_fields:
  "parseFlags sys f = Inr (config, llm) \<Longrightarrow>
     Rounds config = rounds_flag f \<and> Duration config = duration_flag f
     \<and> InputFile config = input_flag f \<and> OutputFile config = output_flag f"
  by (auto simp: parseFlags_def split: if_splits)

lemma estimateRounds_v1_unparsable:
  assumes p: "parseDuration sys d = Inl e"
    and ok: "\<forall>before q. \<not> isl (client before q)"
  shows "fst (estimateRounds_v1 sys client claim llm d s) = Inl (wrap ''invalid duration'' e)
       \<and> length (calls (snd (estimateRounds_v1 sys client claim llm d s))) = length (calls s) + 2
       \<and> files (snd (estimateRounds_v1 sys client claim llm d s)) = files s"
proof -
  from runDebateFlow_v1_never_fails [OF ok, of claim
      "\<lparr>Rounds = 1, Duration = [], InputFile = [], OutputFile = []\<rparr>" llm s]
  obtain rounds new where t: "runDebateFlow_v1 client claim
      \<lparr>Rounds = 1, Duration = [], InputFile = [], OutputFile = []\<rparr> llm s
        = (Inr rounds, s\<lparr>calls := calls s @ new\<rparr>)" and n: "length new = 2"
    by auto
  show ?thesis
    using p n by (simp add: estimateRounds_v1_def t Let_def)
qed

lemma estimateRounds_v2_unparsable:
  assumes p: "parseDuration sys d = Inl e"
    and ok: "\<forall>before q. \<not> isl (client before q)"
    and lg: "\<forall>out text. printErr sys out text = None"
  shows "fst (estimateRounds_v2 sys client claim llm d s) = Inl (wrap ''invalid duration'' e)
       \<and> length (calls (snd (estimateRounds_v2 sys client claim llm d s))) = length (calls s) + 2
       \<and> files (snd (estimateRounds_v2 sys client claim llm d s)) = files s"
proof -
  from runDebateFlow_v2_never_fails [OF ok lg, of claim
      "\<lparr>Rounds = 1, Duration = [], InputFile = [], OutputFile = []\<rparr>" llm s]
  obtain rounds new out where t: "runDebateFlow_v2 sys client claim
      \<lparr>Rounds = 1, Duration = [], InputFile = [], OutputFile = []\<rparr> llm s
        = (Inr rounds, s\<lparr>calls := calls s @ new, stdout := stdout s @ out\<rparr>)"
    and n: "length new = 2"
    by auto
  show ?thesis
    using p n by (simp add: estimateRounds_v2_def t Let_def)
qed

lemma fakeLLM_never_fails: "\<forall>before q. \<not> isl (fakeLLM before q)"
  by (simp add: fakeLLM_def)

lemma sys0_prints: "\<forall>out text. printErr sys0 out text = None"
  by (simp add: sys0_def)

lemma estimateRounds_v1_result:
  assumes "runDebateFlow_v1 client claim
             \<lparr>Rounds = 1, Duration = [], InputFile = [], OutputFile = []\<rparr> llm s = (Inr trial, s1)"
    and "parseDuration sys d = Inr budget"
  shows "fst (estimateRounds_v1 sys client claim llm d s)
           = Inr (max 1 (secondsQuotient sys budget (trialElapsed sys)))"
  using assms by (simp add: estimateRounds_v1_def Let_def max_def)

lemma estimateRounds_v2_result:
  assumes "runDebateFlow_v2 sys client claim
             \<lparr>Rounds = 1, Duration = [], InputFile = [], OutputFile = []\<rparr> llm s = (Inr trial, s1)"
    and "parseDuration sys d = Inr budget"
  shows "fst (estimateRounds_v2 sys client claim llm d s)
           = Inr (max 1 (secondsQuotient sys budget
                    (if trialElapsed sys \<le> 0 then 1000000 else trialElapsed sys)))"
  using assms by (simp add: estimateRounds_v2_def Let_def max_def)

section \<open>The quotient in \<^verbatim>\<open>float64\<close>\<close>

text \<open>
  A fraction whose value is an integer below \<^verbatim>\<open>2^53\<close> is a value of \<^verbatim>\<open>float64\<close>: the
  rounding leaves it as it is.
\<close>

lemma scaleUp_exact:
  "0 < q \<Longrightarrow> q dvd p \<Longrightarrow> p < 2 ^ 53 * q \<Longrightarrow> scaleUp p q j = (p1, j1) \<Longrightarrow>
     q dvd p1 \<and> p1 < 2 ^ 53 * q \<and> j \<le> j1 \<and> p1 = p * 2 ^ (j1 - j)"
proof (induction p q j rule: scaleUp.induct)
  case (1 p q j)
  show ?case
  proof (cases "0 < p \<and> p < 2 ^ 52 * q")
    case True
    then have s: "scaleUp (2 * p) q (Suc j) = (p1, j1)"
      using "1.prems"(4) by (simp add: scaleUp.simps [of p q j])
    have d: "q dvd 2 * p" using "1.prems"(2) by simp
    have b: "2 * p < 2 ^ 53 * q" using True by simp
    from "1.IH" [OF True "1.prems"(1) d b s]
    have r: "q dvd p1" "p1 < 2 ^ 53 * q" "Suc j \<le> j1" "p1 = 2 * p * 2 ^ (j1 - Suc j)"
      by auto
    from r(3) have "j1 - j = Suc (j1 - Suc j)" by simp
    then show ?thesis using r by simp
  next
    case False
    then have "(p1, j1) = (p, j)"
      using "1.prems"(4) by (auto simp: scaleUp.simps [of p q j] split: if_splits)
    then show ?thesis using "1.prems" by simp
  qed
qed

lemma scaleDown_small: "p < 2 ^ 53 * q \<Longrightarrow> scaleDown p q i = (q, i)"
  by (simp add: scaleDown.simps [of p q i])

lemma roundHalfEven_exact: "0 < q \<Longrightarrow> q dvd p \<Longrightarrow> roundHalfEven p q = p div q"
  by (simp add: roundHalfEven_def Let_def)

lemma float64_exact:
  assumes "0 < q" "0 \<le> p" "q dvd p" "p div q < 2 ^ 53"
  shows "\<exists>d. 0 < d \<and> float64 (p, q) = (p div q * d, d)"
proof (cases "p = 0")
  case True
  then show ?thesis by (intro exI [of _ 1]) (simp add: float64_def)
next
  case False
  obtain p1 j1 where s: "scaleUp p q 0 = (p1, j1)" by (cases "scaleUp p q 0")
  from assms(3) have pq: "p = p div q * q" by simp
  have "p div q * q < 2 ^ 53 * q" using assms(1,4) by simp
  with pq have b: "p < 2 ^ 53 * q" by simp
  from scaleUp_exact [OF assms(1,3) b s]
  have r: "q dvd p1" "p1 < 2 ^ 53 * q" "p1 = p * 2 ^ j1" by auto
  have m: "p1 div q = p div q * 2 ^ j1"
    using r(3) assms(3) by (simp add: dvd_div_mult)
  have "float64 (p, q) = (p div q * 2 ^ j1, 2 ^ j1)"
    using False assms(1,2)
    by (simp add: float64_def s scaleDown_small [OF r(2)] roundHalfEven_exact [OF assms(1) r(1)] m)
  then show ?thesis by (intro exI [of _ "2 ^ j1"]) simp
qed

lemma float64_zero: "float64 (0, q) = (0, 1)"
  by (simp add: float64_def)

lemma Seconds_whole:
  assumes "0 \<le> S" "S < 2 ^ 53"
  shows "\<exists>d. 0 < d \<and> Seconds (S * 1000000000) = (S * d, d)"
proof -
  from float64_exact [of 1 S] assms
  obtain d1 where d1: "0 < d1" "float64 (S, 1) = (S * d1, d1)" by auto
  from float64_exact [of d1 "S * d1"] assms d1(1)
  obtain d where d: "0 < d" "float64 (S * d1, d1) = (S * d, d)" by auto
  show ?thesis
    using d by (intro exI [of _ d]) (simp add: Seconds_def Let_def d1 float64_zero)
qed

text \<open>
  So the quotient of two whole numbers of seconds, the one a multiple of the other, is
  their exact quotient.
\<close>

lemma float64Quotient_whole:
  assumes "0 \<le> B" "B < 2 ^ 53" "0 < T" "T < 2 ^ 53" "T dvd B"
  shows "float64Quotient (B * 1000000000) (T * 1000000000) = Some (B div T)"
proof -
  from Seconds_whole [of T] assms
  obtain b where b: "0 < b" "Seconds (T * 1000000000) = (T * b, b)" by auto
  have b0: "b \<noteq> 0" using b(1) by simp
  show ?thesis
  proof (cases "B = 0")
    case True
    have "Seconds 0 = (0, 1)" by (simp add: Seconds_def float64_zero)
    then show ?thesis
      using assms(3) True b0 by (simp add: float64Quotient_def Let_def b float64_zero)
  next
    case False
    with assms have B: "0 < B" by simp
    from Seconds_whole [OF assms(1,2)]
    obtain a where a: "0 < a" "Seconds (B * 1000000000) = (B * a, a)" by auto
    have q: "0 < a * (T * b)" using a(1) b(1) assms(3) by simp
    have q0: "a * (T * b) \<noteq> 0" using a(1) b(1) assms(3) by simp
    have e: "B * a * b = B div T * (a * (T * b))"
      using assms(5) by (simp add: algebra_simps)
    have dv: "a * (T * b) dvd B * a * b" unfolding e by simp
    have k: "B * a * b div (a * (T * b)) = B div T"
      unfolding e by (rule nonzero_mult_div_cancel_right [OF q0])
    have k0: "0 \<le> B div T" using assms(1,3) by (simp add: pos_imp_zdiv_nonneg_iff)
    have "B div T * 1 \<le> B div T * T"
      using k0 assms(3) by (intro mult_left_mono) auto
    moreover have "B div T * T = B" using assms(5) by simp
    ultimately have k1: "B div T \<le> B" by simp
    have p0: "0 \<le> B * a * b" using assms(1) a(1) b(1) by simp
    from float64_exact [OF q p0 dv] k k1 assms(2)
    obtain d where d: "0 < d" "float64 (B * a * b, a * (T * b)) = (B div T * d, d)" by auto
    have "(2::int) ^ 53 \<le> 2 ^ 63" by simp
    with k1 assms(2) have k2: "\<not> 2 ^ 63 \<le> B div T" by linarith
    have d0: "d \<noteq> 0" using d(1) by simp
    show ?thesis
      using B assms(3) d0 b0 k2
      by (simp add: float64Quotient_def Let_def a b d(2) abs_mult)
  qed
qed

lemma binary64_sys0: "binary64 sys0"
  by (simp add: binary64_def sys0_def goQuotient_def)

lemma binary64_sys300ms: "binary64 sys300ms"
  by (simp add: binary64_def sys300ms_def sys0_def goQuotient_def)


section \<open>The loop, round after round\<close>






section \<open>Neither a round count nor a budget\<close>



section \<open>The trimmed view and the seed\<close>

text \<open>
  Claim C2, as stated, fails on \<^verbatim>\<open>src/main.go\<close>, where the view of an iteration is
  \<^verbatim>\<open>trimHistory(history, MaxHistory)\<close> and nothing else. With six rounds and a client
  that always answers \<open>ok\<close>, the history holds eleven messages when the sixth round
  starts; the context of the eleventh call (the Challenger of round six) has exactly ten
  turns and its first turn is the Challenger turn of round one, not the claim.
\<close>

theorem C2_counterexample:
  "calls (snd (runDebateFlow_v1 fakeLLM ''c'' (rounds0 6) llm0 io0)) ! 10 =
     \<lparr>model_v1 = ''mC'',
      prompt_v1 = ''CP'' @ nl @ transcript (concat (replicate 5 [chal0, def0]))\<rparr>
   \<and> length (concat (replicate 5 [chal0, def0])) = 10
   \<and> concat (replicate 5 [chal0, def0]) ! 0 = chal0
   \<and> chal0 \<noteq> \<lparr>Role = RoleUser, Content = ''c''\<rparr>"
proof -
  have six: "nat (Rounds (rounds0 6)) = 5 + 1" by (simp add: rounds0_def)
  from fake_rounds_v1 [of "[\<lparr>Role = RoleUser, Content = ''c''\<rparr>]" 5 llm0 "[]" io0]
  obtain s1 :: "call_v1 io" where
    l: "debateLoop_v1 fakeLLM llm0 5 [\<lparr>Role = RoleUser, Content = ''c''\<rparr>] [] io0 =
        (Inr ([\<lparr>Role = RoleUser, Content = ''c''\<rparr>] @ concat (replicate 5 [chal0, def0]),
              [] @ replicate 5 \<lparr>Challenger = ''ok'', Defender = ''ok''\<rparr>), s1)"
    and c: "length (calls s1) = length (calls (io0 :: call_v1 io)) + 2 * 5"
    by auto
  have len: "length (calls s1) = 10" using c by (simp add: io0_def)
  have r: "calls (snd (debateRound_v1 fakeLLM llm0
              (\<lparr>Role = RoleUser, Content = ''c''\<rparr> # concat (replicate 5 [chal0, def0])) s1))
           = calls s1 @ [\<lparr>model_v1 = ''mC'',
               prompt_v1 = ''CP'' @ nl @ transcript (concat (replicate 5 [chal0, def0]))\<rparr>,
              \<lparr>model_v1 = ''mD'',
               prompt_v1 = ''DP'' @ nl @ transcript (concat (replicate 5 [chal0, def0]) @ [chal0])\<rparr>]"
    by (simp add: fake_round_v1 length_concat_pairs llm0_def)
  have "calls (snd (runDebateFlow_v1 fakeLLM ''c'' (rounds0 6) llm0 io0)) =
          calls (snd (debateRound_v1 fakeLLM llm0
              (\<lparr>Role = RoleUser, Content = ''c''\<rparr> # concat (replicate 5 [chal0, def0])) s1))"
    unfolding runDebateFlow_v1_def six debateLoop_v1_add l
    by (simp split: sum.splits prod.splits)
  with r len have
    "calls (snd (runDebateFlow_v1 fakeLLM ''c'' (rounds0 6) llm0 io0)) ! 10 =
       \<lparr>model_v1 = ''mC'',
        prompt_v1 = ''CP'' @ nl @ transcript (concat (replicate 5 [chal0, def0]))\<rparr>"
    by (simp add: nth_append)
  moreover have "length (concat (replicate 5 [chal0, def0])) = 10"
    by (simp add: length_concat_pairs)
  moreover have "concat (replicate 5 [chal0, def0]) ! 0 = chal0"
    by (simp add: numeral_eq_Suc)
  moreover have "chal0 \<noteq> \<lparr>Role = RoleUser, Content = ''c''\<rparr>"
    by (simp add: chal0_def RoleChallenger_def RoleUser_def)
  ultimately show ?thesis by blast
qed

text \<open>
  Claim C2, amended. For every context window longer than \<open>maxLen \<ge> 1\<close>,
  \<^verbatim>\<open>trimHistory\<close> returns exactly the last \<open>maxLen\<close> turns. In
  \<^verbatim>\<open>src/unnamed/part_000\<close> the view of an iteration is that result for
  \<open>maxLen = MaxHistory + 1\<close> with the claim stored at index 0: for every history longer
  than that, the view has exactly \<open>MaxHistory + 1\<close> turns, the claim at index 0, and
  behind it the \<open>MaxHistory\<close> most recent turns.
\<close>

theorem C2_trimmed_view:
  assumes "1 \<le> maxLen" "maxLen < int (length history1)"
    and "inHeap h history" "MaxHistory_v2 + 1 < int (len history)"
  shows "trimHistory_v1 history1 maxLen = Inr (drop (length history1 - nat maxLen) history1)
       \<and> length (drop (length history1 - nat maxLen) history1) = nat maxLen
       \<and> (\<exists>t h1. windowView_v2 h history ce = Inr (t, h1)
              \<and> elems h1 t = ce # drop (len history - 100) (elems h history)
              \<and> length (elems h1 t) = nat (MaxHistory_v2 + 1)
              \<and> elems h1 t ! 0 = ce)"
proof -
  from assms(1,2) have a: "trimHistory_v1 history1 maxLen
        = Inr (drop (length history1 - nat maxLen) history1)"
    by (simp add: trimHistory_v1_eq)
  from assms(1,2) have b: "length (drop (length history1 - nat maxLen) history1) = nat maxLen"
    by simp
  from assms(4) have l: "101 < len history" by (simp add: MaxHistory_v2_def)
  then have p: "0 < len history" by simp
  have le: "length (elems h history) = len history"
    using assms(3) by (rule length_elems)
  from windowView_v2_effect [OF assms(3) p, of ce]
  obtain t h1 where w: "windowView_v2 h history ce = Inr (t, h1)"
    and e: "elems h1 t = windowOnLists_v2 ce (elems h history)" by blast
  from l le have e': "windowOnLists_v2 ce (elems h history)
        = ce # drop (len history - 100) (elems h history)"
    using windowOnLists_v2_long [of "elems h history" ce] by simp
  have "length (elems h1 t) = nat (MaxHistory_v2 + 1)"
    using l le by (simp add: e e' MaxHistory_v2_def)
  with w e e' a b show ?thesis by simp
qed

theorem C2_trimmed_view_witness:
  "trimHistory_v1 (seed0 # replicate 10 chal0) 10
      = Inr (drop (length (seed0 # replicate 10 chal0) - nat 10) (seed0 # replicate 10 chal0))
   \<and> length (drop (length (seed0 # replicate 10 chal0) - nat 10) (seed0 # replicate 10 chal0))
        = nat 10
   \<and> (\<exists>t h1. windowView_v2 (snd (literal emptyHeap (seed0 # replicate 101 chal0)))
                    (fst (literal emptyHeap (seed0 # replicate 101 chal0))) seed0 = Inr (t, h1)
          \<and> elems h1 t = seed0 # drop (len (fst (literal emptyHeap (seed0 # replicate 101 chal0))) - 100)
                 (elems (snd (literal emptyHeap (seed0 # replicate 101 chal0)))
                    (fst (literal emptyHeap (seed0 # replicate 101 chal0))))
          \<and> length (elems h1 t) = nat (MaxHistory_v2 + 1)
          \<and> elems h1 t ! 0 = seed0)"
proof -
  have a: "(1::int) \<le> 10" by simp
  have b: "10 < int (length (seed0 # replicate 10 chal0))" by simp
  from literal_inHeap [of emptyHeap "seed0 # replicate 101 chal0"
      "fst (literal emptyHeap (seed0 # replicate 101 chal0))"
      "snd (literal emptyHeap (seed0 # replicate 101 chal0))"]
  have c: "inHeap (snd (literal emptyHeap (seed0 # replicate 101 chal0)))
             (fst (literal emptyHeap (seed0 # replicate 101 chal0)))"
    and l: "len (fst (literal emptyHeap (seed0 # replicate 101 chal0))) = 102"
    by simp_all
  have d: "MaxHistory_v2 + 1 < int (len (fst (literal emptyHeap (seed0 # replicate 101 chal0))))"
    by (simp add: l MaxHistory_v2_def)
  from C2_trimmed_view [OF a b c d, of seed0] show ?thesis .
qed

section \<open>Building the view writes into the stored history\<close>

text \<open>
  Claim C3 says that building the view of an iteration leaves the stored history as it
  is. In \<^verbatim>\<open>src/unnamed/part_000\<close> the view \<^verbatim>\<open>tempHistory\<close> is a slice of the backing array
  of \<^verbatim>\<open>history\<close>, so \<^verbatim>\<open>tempHistory[0] = claimEntry\<close> writes into \<^verbatim>\<open>history\<close> at the
  index where the view starts (lemma \<open>windowView_v2_overwrites_long_history\<close>; while the
  history has at most \<open>MaxHistory + 1\<close> elements that index is 0 and nothing changes,
  lemma \<open>windowView_v2_keeps_short_history\<close>). The run below is the program with a
  client that always answers \<open>ok\<close>: after 51 iterations the stored history is the claim
  and the 102 turns, with the Defender turn of round 1 at index 2; the iteration 52
  replaces that element by the claim, besides appending its own two turns.
\<close>

theorem C3_stored_history_overwritten:
  "historyAfter_v2 sys0 fakeLLM ''c'' llm0 51 io0
     = Some (seed0 # concat (replicate 51 [chal0, def0]))
   \<and> historyAfter_v2 sys0 fakeLLM ''c'' llm0 52 io0
     = Some ((seed0 # concat (replicate 51 [chal0, def0]))[2 := seed0] @ [chal0, def0])
   \<and> (seed0 # concat (replicate 51 [chal0, def0])) ! 2 = def0
   \<and> def0 \<noteq> seed0"
proof -
  define s0 :: "call_v2 io" where "s0 = \<lparr>calls = [], stdout =
          [nl @ '' Logged on: '' @ ''now'' @ nl
           @ (''Starting debate with claim: '' @ ''c'' @ nl) @ nl], files = []\<rparr>"
  have lg: "logDebate sys0 (''Starting debate with claim: '' @ ''c'' @ nl) (io0 :: call_v2 io)
      = (None, s0)"
    by (simp add: logDebate_def sys0_def io0_def s0_def Let_def)
  have sd: "\<lparr>Role = RoleUser, Content = ''c''\<rparr> = seed0" by (simp add: seed0_def)
  from fake_rounds_v2 [of "[seed0]" seed0 51 llm0 "[]" s0]
  obtain s1 where l: "loopOnLists_v2 sys0 fakeLLM llm0 seed0 51 [seed0] [] s0 =
           (Inr ([seed0] @ concat (replicate 51 [chal0, def0]),
                 [] @ replicate 51 \<lparr>Challenger = ''ok'', Defender = ''ok''\<rparr>), s1)"
    by auto
  have a: "historyAfter_v2 sys0 fakeLLM ''c'' llm0 51 io0
     = Some (seed0 # concat (replicate 51 [chal0, def0]))"
    unfolding historyAfter_v2_lists lg sd by (simp add: l)
  have lg2: "\<forall>out text. printErr sys0 out text = None" by (simp add: sys0_def)
  have len: "length ([seed0] @ concat (replicate 51 [chal0, def0])) - 101 = 2"
    by (simp add: length_concat_pairs)
  from roundOnLists_v2_ok [OF lg2, of fakeLLM s1 llm0
      "[seed0] @ concat (replicate 51 [chal0, def0])" seed0 "''ok''" "''ok''"]
  obtain out where r: "roundOnLists_v2 sys0 fakeLLM llm0 seed0
        ([seed0] @ concat (replicate 51 [chal0, def0])) s1 =
     (Inr (([seed0] @ concat (replicate 51 [chal0, def0]))[2 := seed0] @ [chal0, def0],
           \<lparr>Challenger = ''ok'', Defender = ''ok''\<rparr>),
      s1\<lparr>calls := calls s1 @
         [\<lparr>model_v2 = ChallengerModel llm0, system_v2 = RoleChallenger @ nl @ ChalPrompt llm0,
           prompt_v2 = transcript ((drop 2 ([seed0] @ concat (replicate 51 [chal0, def0])))
              [0 := seed0])\<rparr>,
          \<lparr>model_v2 = DefenderModel llm0, system_v2 = RoleDefender @ nl @ DefPrompt llm0,
           prompt_v2 = transcript ((drop 2 ([seed0] @ concat (replicate 51 [chal0, def0])))
              [0 := seed0] @ [chal0])\<rparr>],
         stdout := stdout s1 @ out\<rparr>)"
    unfolding len by (auto simp: fakeLLM_def chal0_def def0_def)
  have "loopOnLists_v2 sys0 fakeLLM llm0 seed0 (51 + 1) [seed0] [] s0 =
      loopOnLists_v2 sys0 fakeLLM llm0 seed0 1 ([seed0] @ concat (replicate 51 [chal0, def0]))
        ([] @ replicate 51 \<lparr>Challenger = ''ok'', Defender = ''ok''\<rparr>) s1"
    unfolding loopOnLists_v2_add l by simp
  then have u: "fst (loopOnLists_v2 sys0 fakeLLM llm0 seed0 52 [seed0] [] s0) =
      Inr (([seed0] @ concat (replicate 51 [chal0, def0]))[2 := seed0] @ [chal0, def0],
           ([] @ replicate 51 \<lparr>Challenger = ''ok'', Defender = ''ok''\<rparr>)
           @ [\<lparr>Challenger = ''ok'', Defender = ''ok''\<rparr>])"
    by (simp add: r [simplified])
  have b: "historyAfter_v2 sys0 fakeLLM ''c'' llm0 52 io0
     = Some ((seed0 # concat (replicate 51 [chal0, def0]))[2 := seed0] @ [chal0, def0])"
  proof -
    obtain x s2 where full: "loopOnLists_v2 sys0 fakeLLM llm0 seed0 52 [seed0] [] s0 = (x, s2)"
      by force
    with u have x: "x = Inr (([seed0] @ concat (replicate 51 [chal0, def0]))[2 := seed0]
           @ [chal0, def0],
           ([] @ replicate 51 \<lparr>Challenger = ''ok'', Defender = ''ok''\<rparr>)
           @ [\<lparr>Challenger = ''ok'', Defender = ''ok''\<rparr>])"
      by simp
    show ?thesis
      unfolding historyAfter_v2_lists lg sd by (simp add: full x)
  qed
  have c: "(seed0 # concat (replicate 51 [chal0, def0])) ! 2 = def0"
    by (simp add: numeral_eq_Suc)
  have d: "def0 \<noteq> seed0"
    by (simp add: def0_def seed0_def RoleDefender_def RoleUser_def)
  from a b c d show ?thesis by blast
qed

section \<open>A wall-clock budget that does not parse\<close>

text \<open>
  Claim C4, as stated, fails on both programs: \<^verbatim>\<open>estimateRounds\<close> runs the trial round
  first and calls \<^verbatim>\<open>time.ParseDuration\<close> afterwards. With the budget \<open>not-a-duration\<close>,
  no round count and a server that always answers, the run fails with the error of the
  parser, and two calls have been issued by then.
\<close>

theorem C4_counterexample:
  "fst (runCLI_v1 sys0 okServer flagsBadDuration io0)
     = Inl (Err ''invalid duration: time: invalid duration'')
   \<and> length (calls (snd (runCLI_v1 sys0 okServer flagsBadDuration io0))) = 2
   \<and> fst (runCLI_v2 sys0 okServer flagsBadDuration io0)
     = Inl (Err ''invalid duration: time: invalid duration'')
   \<and> length (calls (snd (runCLI_v2 sys0 okServer flagsBadDuration io0))) = 2"
proof -
  define llmD where "llmD = \<lparr>ChallengerModel = ''llama3'', DefenderModel = ''llama3'',
            ChalPrompt = ''You are the Challenger. Attack ruthlessly:'',
            DefPrompt = ''You are the Defender. Represent the user:''\<rparr>"
  have p: "parseDuration sys0 ''not-a-duration'' = Inl (Err ''time: invalid duration'')"
    by (simp add: sys0_def)
  have pf: "parseFlags sys0 flagsBadDuration =
      Inr (\<lparr>Rounds = 0, Duration = ''not-a-duration'', InputFile = ''notes.md'',
            OutputFile = ''report.md''\<rparr>, llmD)"
    by (simp add: parseFlags_def flagsBadDuration_def flags0_def mustLoadPrompt_def llmD_def)
  have li: "loadInput sys0 ''notes.md'' = Inr ''the claim''"
    by (simp add: loadInput_def sys0_def)
  have ce: "clientFromEnvironment sys0 = None" by (simp add: sys0_def)
  have a1: "\<forall>before q. \<not> isl ((fakeLLM :: call_v1 client) before q)"
    by (rule fakeLLM_never_fails)
  have a2: "\<forall>before q. \<not> isl ((fakeLLM :: call_v2 client) before q)"
    by (rule fakeLLM_never_fails)
  have l0: "length (calls (io0 :: call_v1 io)) = 0" "length (calls (io0 :: call_v2 io)) = 0"
    by (simp_all add: io0_def)
  obtain x1 t1 where e1: "estimateRounds_v1 sys0 fakeLLM ''the claim'' llmD
      ''not-a-duration'' io0 = (x1, t1)" by force
  from estimateRounds_v1_unparsable [OF p a1, of "''the claim''" llmD io0] e1 l0
  have r1: "x1 = Inl (Err ''invalid duration: time: invalid duration'')" "length (calls t1) = 2"
    by simp_all
  obtain x2 t2 where e2: "estimateRounds_v2 sys0 fakeLLM ''the claim'' llmD
      ''not-a-duration'' io0 = (x2, t2)" by force
  from estimateRounds_v2_unparsable [OF p a2 sys0_prints, of "''the claim''" llmD io0] e2 l0
  have r2: "x2 = Inl (Err ''invalid duration: time: invalid duration'')" "length (calls t2) = 2"
    by simp_all
  have "runCLI_v1 sys0 okServer flagsBadDuration io0
      = (Inl (Err ''invalid duration: time: invalid duration''), t1)"
    using r1(1) by (simp add: runCLI_v1_def pf li ce okServer_v1 e1)
  moreover have "runCLI_v2 sys0 okServer flagsBadDuration io0
      = (Inl (Err ''invalid duration: time: invalid duration''), t2)"
    using r2(1) by (simp add: runCLI_v2_def pf li ce okServer_v2 e2)
  ultimately show ?thesis using r1 r2 by simp
qed

text \<open>
  Claim C4, amended. For every budget that does not parse (and no round count), the run
  fails, writes no file, and issues at most the two calls of the trial round: the real
  debate and the summarizer are never started. The parse error itself surfaces only
  after the trial round: when no call of the trial round fails (and, in
  \<^verbatim>\<open>src/unnamed/part_000\<close>, no log write fails), \<^verbatim>\<open>estimateRounds\<close> has issued exactly
  two calls when it returns \<open>invalid duration\<close>.
\<close>

theorem C4_malformed_budget:
  assumes p: "parseDuration sys (duration_flag f) = Inl e"
    and d: "duration_flag f \<noteq> []" and r: "rounds_flag f = 0"
  shows "isl (fst (runCLI_v1 sys server1 f s1))
       \<and> files (snd (runCLI_v1 sys server1 f s1)) = files s1
       \<and> length (calls (snd (runCLI_v1 sys server1 f s1))) \<le> length (calls s1) + 2
       \<and> isl (fst (runCLI_v2 sys server2 f s2))
       \<and> files (snd (runCLI_v2 sys server2 f s2)) = files s2
       \<and> length (calls (snd (runCLI_v2 sys server2 f s2))) \<le> length (calls s2) + 2
       \<and> ((\<forall>before q. \<not> isl (client1 before q)) \<longrightarrow>
            fst (estimateRounds_v1 sys client1 claim llm (duration_flag f) s1)
              = Inl (wrap ''invalid duration'' e)
            \<and> length (calls (snd (estimateRounds_v1 sys client1 claim llm (duration_flag f) s1)))
              = length (calls s1) + 2)
       \<and> ((\<forall>before q. \<not> isl (client2 before q)) \<and> (\<forall>out text. printErr sys out text = None)
            \<longrightarrow>
            fst (estimateRounds_v2 sys client2 claim llm (duration_flag f) s2)
              = Inl (wrap ''invalid duration'' e)
            \<and> length (calls (snd (estimateRounds_v2 sys client2 claim llm (duration_flag f) s2)))
              = length (calls s2) + 2)"
proof -
  have v1: "isl (fst (runCLI_v1 sys server1 f s1))
       \<and> files (snd (runCLI_v1 sys server1 f s1)) = files s1
       \<and> length (calls (snd (runCLI_v1 sys server1 f s1))) \<le> length (calls s1) + 2"
  proof (cases "parseFlags sys f")
    case (Inl a)
    then show ?thesis by (simp add: runCLI_v1_def)
  next
    case (Inr cl)
    obtain config llm where cl: "cl = (config, llm)" by (cases cl)
    from parseFlags_fields [of sys f config llm] Inr cl r d
    have c: "Rounds config = 0" "Duration config = duration_flag f" "Duration config \<noteq> []"
      by simp_all
    show ?thesis
    proof (cases "loadInput sys (InputFile config)")
      case (Inl a)
      then show ?thesis using Inr cl c by (simp add: runCLI_v1_def)
    next
      case input: (Inr input)
      show ?thesis
      proof (cases "clientFromEnvironment sys")
        case (Some a)
        then show ?thesis using Inr cl c input by (simp add: runCLI_v1_def)
      next
        case None
        obtain x s' where est: "estimateRounds_v1 sys (NewOllamaClient_v1 server1) input llm
            (duration_flag f) s1 = (x, s')" by force
        from estimateRounds_v1_frame [of sys "NewOllamaClient_v1 server1" input llm
            "duration_flag f" s1] est p
        have "files s' = files s1" "length (calls s') \<le> length (calls s1) + 2" "isl x"
          by simp_all
        then show ?thesis
          using Inr cl c input None est
          by (cases x) (simp_all add: runCLI_v1_def)
      qed
    qed
  qed
  have v2: "isl (fst (runCLI_v2 sys server2 f s2))
       \<and> files (snd (runCLI_v2 sys server2 f s2)) = files s2
       \<and> length (calls (snd (runCLI_v2 sys server2 f s2))) \<le> length (calls s2) + 2"
  proof (cases "parseFlags sys f")
    case (Inl a)
    then show ?thesis by (simp add: runCLI_v2_def)
  next
    case (Inr cl)
    obtain config llm where cl: "cl = (config, llm)" by (cases cl)
    from parseFlags_fields [of sys f config llm] Inr cl r d
    have c: "Rounds config = 0" "Duration config = duration_flag f" "Duration config \<noteq> []"
      by simp_all
    show ?thesis
    proof (cases "loadInput sys (InputFile config)")
      case (Inl a)
      then show ?thesis using Inr cl c by (simp add: runCLI_v2_def)
    next
      case input: (Inr input)
      show ?thesis
      proof (cases "clientFromEnvironment sys")
        case (Some a)
        then show ?thesis using Inr cl c input by (simp add: runCLI_v2_def)
      next
        case None
        obtain x s' where est: "estimateRounds_v2 sys (NewOllamaClient_v2 server2) input llm
            (duration_flag f) s2 = (x, s')" by force
        from estimateRounds_v2_frame [of sys "NewOllamaClient_v2 server2" input llm
            "duration_flag f" s2] est p
        have "files s' = files s2" "length (calls s') \<le> length (calls s2) + 2" "isl x"
          by simp_all
        then show ?thesis
          using Inr cl c input None est
          by (cases x) (simp_all add: runCLI_v2_def)
      qed
    qed
  qed
  from v1 v2 estimateRounds_v1_unparsable [OF p, of client1 claim llm s1]
    estimateRounds_v2_unparsable [OF p, of client2 claim llm s2]
  show ?thesis by blast
qed

theorem C4_malformed_budget_witness:
  "isl (fst (runCLI_v1 sys0 okServer flagsBadDuration io0))
       \<and> files (snd (runCLI_v1 sys0 okServer flagsBadDuration io0)) = files (io0 :: call_v1 io)
       \<and> length (calls (snd (runCLI_v1 sys0 okServer flagsBadDuration io0)))
            \<le> length (calls (io0 :: call_v1 io)) + 2
       \<and> isl (fst (runCLI_v2 sys0 okServer flagsBadDuration io0))
       \<and> files (snd (runCLI_v2 sys0 okServer flagsBadDuration io0)) = files (io0 :: call_v2 io)
       \<and> length (calls (snd (runCLI_v2 sys0 okServer flagsBadDuration io0)))
            \<le> length (calls (io0 :: call_v2 io)) + 2
       \<and> fst (estimateRounds_v1 sys0 fakeLLM ''c'' llm0 (duration_flag flagsBadDuration) io0)
              = Inl (wrap ''invalid duration'' (Err ''time: invalid duration''))
       \<and> length (calls (snd (estimateRounds_v1 sys0 fakeLLM ''c'' llm0
                (duration_flag flagsBadDuration) io0)))
              = length (calls (io0 :: call_v1 io)) + 2
       \<and> fst (estimateRounds_v2 sys0 fakeLLM ''c'' llm0 (duration_flag flagsBadDuration) io0)
              = Inl (wrap ''invalid duration'' (Err ''time: invalid duration''))
       \<and> length (calls (snd (estimateRounds_v2 sys0 fakeLLM ''c'' llm0
                (duration_flag flagsBadDuration) io0)))
              = length (calls (io0 :: call_v2 io)) + 2"
proof -
  have p: "parseDuration sys0 (duration_flag flagsBadDuration) = Inl (Err ''time: invalid duration'')"
    by (simp add: sys0_def flagsBadDuration_def flags0_def)
  have d: "duration_flag flagsBadDuration \<noteq> []"
    by (simp add: flagsBadDuration_def flags0_def)
  have r: "rounds_flag flagsBadDuration = 0"
    by (simp add: flagsBadDuration_def flags0_def)
  from C4_malformed_budget [OF p d r, where ?server1.0 = okServer and ?s1.0 = io0
      and ?server2.0 = okServer and ?s2.0 = io0 and ?client1.0 = fakeLLM
      and ?client2.0 = fakeLLM and claim = "''c''" and llm = llm0]
  show ?thesis
    by (simp add: fakeLLM_never_fails sys0_prints)
qed

section \<open>The context of the Defender\<close>

text \<open>
  Claim C5, as stated, fails on \<^verbatim>\<open>src/unnamed/part_000\<close>: the Defender is shown the
  view of the Challenger with the new turn appended, and the view is not trimmed again.
  With 51 rounds and a client that always answers \<open>ok\<close>, the last call (the Defender of
  round 51) has a context of \<open>MaxHistory + 2 = 102\<close> turns: the claim and the 101 turns
  after it.
\<close>

theorem C5_counterexample:
  "last (calls (snd (runDebateFlow_v2 sys0 fakeLLM ''c'' (rounds0 51) llm0 io0))) =
     \<lparr>model_v2 = ''mD'', system_v2 = RoleDefender @ nl @ ''DP'',
      prompt_v2 = transcript ((seed0 # concat (replicate 50 [chal0, def0])) @ [chal0])\<rparr>
   \<and> int (length ((seed0 # concat (replicate 50 [chal0, def0])) @ [chal0])) = MaxHistory_v2 + 2"
proof -
  have n: "nat (Rounds (rounds0 51)) = 50 + 1" by (simp add: rounds0_def)
  define s0 :: "call_v2 io" where "s0 = \<lparr>calls = [], stdout =
          [nl @ '' Logged on: '' @ ''now'' @ nl
           @ (''Starting debate with claim: '' @ ''c'' @ nl) @ nl], files = []\<rparr>"
  have lg: "logDebate sys0 (''Starting debate with claim: '' @ ''c'' @ nl) (io0 :: call_v2 io)
      = (None, s0)"
    by (simp add: logDebate_def sys0_def io0_def s0_def Let_def)
  from runDebateFlow_v2_fake_calls [of "[seed0]" 50 seed0 llm0 "[]" s0]
  obtain s1 out where
    r: "snd (loopOnLists_v2 sys0 fakeLLM llm0 seed0 (50 + 1) [seed0] [] s0) =
     s1\<lparr>calls := calls s1 @ [\<lparr>model_v2 = ChallengerModel llm0,
               system_v2 = RoleChallenger @ nl @ ChalPrompt llm0,
               prompt_v2 = transcript ([seed0] @ concat (replicate 50 [chal0, def0]))\<rparr>,
              \<lparr>model_v2 = DefenderModel llm0,
               system_v2 = RoleDefender @ nl @ DefPrompt llm0,
               prompt_v2 = transcript (([seed0] @ concat (replicate 50 [chal0, def0])) @ [chal0])\<rparr>],
         stdout := stdout s1 @ out\<rparr>"
    by auto
  have "snd (runDebateFlow_v2 sys0 fakeLLM ''c'' (rounds0 51) llm0 io0) =
          snd (loopOnLists_v2 sys0 fakeLLM llm0 seed0 (50 + 1) [seed0] [] s0)"
    unfolding runDebateFlow_v2_lists lg n
    by (simp add: seed0_def split: sum.splits prod.splits)
  with r have "last (calls (snd (runDebateFlow_v2 sys0 fakeLLM ''c'' (rounds0 51) llm0 io0))) =
     \<lparr>model_v2 = ''mD'', system_v2 = RoleDefender @ nl @ ''DP'',
      prompt_v2 = transcript ((seed0 # concat (replicate 50 [chal0, def0])) @ [chal0])\<rparr>"
    by (simp add: llm0_def)
  moreover have "int (length ((seed0 # concat (replicate 50 [chal0, def0])) @ [chal0]))
      = MaxHistory_v2 + 2"
    by (simp add: length_concat_pairs MaxHistory_v2_def)
  ultimately show ?thesis by blast
qed

text \<open>
  Claim C5, amended. In every round whose Challenger call succeeds (and, in
  \<^verbatim>\<open>src/unnamed/part_000\<close>, whose log writes succeed), the next call is the Defender's
  and its context is the view shown to the Challenger followed by the Challenger turn
  just produced, which is its last turn. The context is not trimmed again: it has at most
  \<open>MaxHistory + 1 = 11\<close> turns in \<^verbatim>\<open>src/main.go\<close> and at most
  \<open>MaxHistory + 2 = 102\<close> turns in \<^verbatim>\<open>src/unnamed/part_000\<close>. The hypotheses on the
  heap hold in every iteration (lemma \<open>debateLoop_v2_refines\<close>).
\<close>

theorem C5_defender_context:
  assumes "inHeap h history" "0 < len history"
    and "\<forall>out text. printErr sys out text = None"
    and "client2 (calls s2)
           \<lparr>model_v2 = ChallengerModel llm, system_v2 = RoleChallenger @ nl @ ChalPrompt llm,
            prompt_v2 = transcript (windowOnLists_v2 ce (elems h history))\<rparr> = Inr chal2"
    and "client1 (calls s1)
           \<lparr>model_v1 = ChallengerModel llm,
            prompt_v1 = ChalPrompt llm @ nl @ transcript (windowOnLists_v1 history1)\<rparr> = Inr chal1"
  shows "calls (snd (debateRound_v1 client1 llm history1 s1)) =
           calls s1 @
           [\<lparr>model_v1 = ChallengerModel llm,
             prompt_v1 = ChalPrompt llm @ nl @ transcript (windowOnLists_v1 history1)\<rparr>,
            \<lparr>model_v1 = DefenderModel llm,
             prompt_v1 = DefPrompt llm @ nl @ transcript (windowOnLists_v1 history1
                @ [\<lparr>Role = RoleChallenger, Content = chal1\<rparr>])\<rparr>]
       \<and> length (windowOnLists_v1 history1 @ [\<lparr>Role = RoleChallenger, Content = chal1\<rparr>])
            \<le> nat (MaxHistory_v1 + 1)
       \<and> calls (snd (debateRound_v2 sys client2 llm ce h history s2)) =
           calls s2 @
           [\<lparr>model_v2 = ChallengerModel llm, system_v2 = RoleChallenger @ nl @ ChalPrompt llm,
             prompt_v2 = transcript (windowOnLists_v2 ce (elems h history))\<rparr>,
            \<lparr>model_v2 = DefenderModel llm, system_v2 = RoleDefender @ nl @ DefPrompt llm,
             prompt_v2 = transcript (windowOnLists_v2 ce (elems h history)
                @ [\<lparr>Role = RoleChallenger, Content = chal2\<rparr>])\<rparr>]
       \<and> length (windowOnLists_v2 ce (elems h history)
                @ [\<lparr>Role = RoleChallenger, Content = chal2\<rparr>])
            \<le> nat (MaxHistory_v2 + 2)"
proof -
  have v1: "calls (snd (debateRound_v1 client1 llm history1 s1)) =
           calls s1 @
           [\<lparr>model_v1 = ChallengerModel llm,
             prompt_v1 = ChalPrompt llm @ nl @ transcript (windowOnLists_v1 history1)\<rparr>,
            \<lparr>model_v1 = DefenderModel llm,
             prompt_v1 = DefPrompt llm @ nl @ transcript (windowOnLists_v1 history1
                @ [\<lparr>Role = RoleChallenger, Content = chal1\<rparr>])\<rparr>]"
    using debateRound_v1_challenger_ok [of client1 s1 llm history1 chal1] assms(5)
    by (simp add: windowOnLists_v1_def)
  have l1: "length (windowOnLists_v1 history1 @ [\<lparr>Role = RoleChallenger, Content = chal1\<rparr>])
            \<le> nat (MaxHistory_v1 + 1)"
    by (simp add: windowOnLists_v1_def MaxHistory_v1_def)
  have "calls (snd (debateRound_v2 sys client2 llm ce h history s2)) =
          calls (snd (roundOnLists_v2 sys client2 llm ce (elems h history) s2))"
    using debateRound_v2_refines [OF assms(1,2), of sys client2 llm ce s2] by simp
  also have "\<dots> = calls s2 @
           [\<lparr>model_v2 = ChallengerModel llm, system_v2 = RoleChallenger @ nl @ ChalPrompt llm,
             prompt_v2 = transcript (windowOnLists_v2 ce (elems h history))\<rparr>,
            \<lparr>model_v2 = DefenderModel llm, system_v2 = RoleDefender @ nl @ DefPrompt llm,
             prompt_v2 = transcript (windowOnLists_v2 ce (elems h history)
                @ [\<lparr>Role = RoleChallenger, Content = chal2\<rparr>])\<rparr>]"
    using assms(3,4)
    by (simp add: roundOnLists_v2_def runSingleRound_v2_eq callGenerate_def logDebate_def
        Let_def windowOnLists_v2_def split: sum.splits)
  finally have v2: "calls (snd (debateRound_v2 sys client2 llm ce h history s2)) =
           calls s2 @
           [\<lparr>model_v2 = ChallengerModel llm, system_v2 = RoleChallenger @ nl @ ChalPrompt llm,
             prompt_v2 = transcript (windowOnLists_v2 ce (elems h history))\<rparr>,
            \<lparr>model_v2 = DefenderModel llm, system_v2 = RoleDefender @ nl @ DefPrompt llm,
             prompt_v2 = transcript (windowOnLists_v2 ce (elems h history)
                @ [\<lparr>Role = RoleChallenger, Content = chal2\<rparr>])\<rparr>]" .
  have l2: "length (windowOnLists_v2 ce (elems h history)
                @ [\<lparr>Role = RoleChallenger, Content = chal2\<rparr>])
            \<le> nat (MaxHistory_v2 + 2)"
    by (simp add: windowOnLists_v2_def MaxHistory_v2_def)
  from v1 l1 v2 l2 show ?thesis by blast
qed

theorem C5_defender_context_witness:
  "calls (snd (debateRound_v1 fakeLLM llm0 [seed0] io0)) =
           calls (io0 :: call_v1 io) @
           [\<lparr>model_v1 = ChallengerModel llm0,
             prompt_v1 = ChalPrompt llm0 @ nl @ transcript (windowOnLists_v1 [seed0])\<rparr>,
            \<lparr>model_v1 = DefenderModel llm0,
             prompt_v1 = DefPrompt llm0 @ nl @ transcript (windowOnLists_v1 [seed0]
                @ [\<lparr>Role = RoleChallenger, Content = ''ok''\<rparr>])\<rparr>]
       \<and> length (windowOnLists_v1 [seed0] @ [\<lparr>Role = RoleChallenger, Content = ''ok''\<rparr>])
            \<le> nat (MaxHistory_v1 + 1)
       \<and> calls (snd (debateRound_v2 sys0 fakeLLM llm0 seed0 (snd (literal emptyHeap [seed0]))
                    (fst (literal emptyHeap [seed0])) io0)) =
           calls (io0 :: call_v2 io) @
           [\<lparr>model_v2 = ChallengerModel llm0, system_v2 = RoleChallenger @ nl @ ChalPrompt llm0,
             prompt_v2 = transcript (windowOnLists_v2 seed0
                (elems (snd (literal emptyHeap [seed0])) (fst (literal emptyHeap [seed0]))))\<rparr>,
            \<lparr>model_v2 = DefenderModel llm0, system_v2 = RoleDefender @ nl @ DefPrompt llm0,
             prompt_v2 = transcript (windowOnLists_v2 seed0
                (elems (snd (literal emptyHeap [seed0])) (fst (literal emptyHeap [seed0])))
                @ [\<lparr>Role = RoleChallenger, Content = ''ok''\<rparr>])\<rparr>]
       \<and> length (windowOnLists_v2 seed0
                (elems (snd (literal emptyHeap [seed0])) (fst (literal emptyHeap [seed0])))
                @ [\<lparr>Role = RoleChallenger, Content = ''ok''\<rparr>])
            \<le> nat (MaxHistory_v2 + 2)"
proof -
  from literal_inHeap [of emptyHeap "[seed0]" "fst (literal emptyHeap [seed0])"
      "snd (literal emptyHeap [seed0])"]
  have a: "inHeap (snd (literal emptyHeap [seed0])) (fst (literal emptyHeap [seed0]))"
    and b: "0 < len (fst (literal emptyHeap [seed0]))"
    by simp_all
  have c: "\<forall>out text. printErr sys0 out text = None" by (simp add: sys0_def)
  have d: "(fakeLLM :: call_v2 client) (calls (io0 :: call_v2 io))
           \<lparr>model_v2 = ChallengerModel llm0, system_v2 = RoleChallenger @ nl @ ChalPrompt llm0,
            prompt_v2 = transcript (windowOnLists_v2 seed0
              (elems (snd (literal emptyHeap [seed0])) (fst (literal emptyHeap [seed0]))))\<rparr>
           = Inr ''ok''"
    by (simp add: fakeLLM_def)
  have e: "(fakeLLM :: call_v1 client) (calls (io0 :: call_v1 io))
           \<lparr>model_v1 = ChallengerModel llm0,
            prompt_v1 = ChalPrompt llm0 @ nl @ transcript (windowOnLists_v1 [seed0])\<rparr> = Inr ''ok''"
    by (simp add: fakeLLM_def)
  show ?thesis
    by (rule C5_defender_context [where h = "snd (literal emptyHeap [seed0])"
          and history = "fst (literal emptyHeap [seed0])" and sys = sys0
          and ?client2.0 = fakeLLM and ?s2.0 = io0 and llm = llm0 and ce = seed0
          and ?chal2.0 = "''ok''" and ?client1.0 = fakeLLM and ?s1.0 = io0
          and ?history1.0 = "[seed0]" and ?chal1.0 = "''ok''"]) (rule a b c d e)+
qed

section \<open>The number and the order of the calls of a debate\<close>

text \<open>
  Claim C6, as stated, fails on \<^verbatim>\<open>src/unnamed/part_000\<close>: its loop also ends when
  \<^verbatim>\<open>logDebate\<close> cannot print. With one round asked for and a standard output whose
  second write fails, the Challenger's call succeeds, the run ends with the error of the
  log after that single call, and no round is returned.
\<close>

theorem C6_counterexample:
  "runDebateFlow_v2 sysStdoutFull fakeLLM ''c'' (rounds0 1) llm0 io0 =
     (Inl (Err ''logging challenger response: no space left on device''),
      \<lparr>calls = [\<lparr>model_v2 = ''mC'', system_v2 = ''challenger'' @ nl @ ''CP'',
                  prompt_v2 = ''user: c'' @ nl\<rparr>],
       stdout = [nl @ '' Logged on: now'' @ nl @ ''Starting debate with claim: c'' @ nl @ nl],
       files = []\<rparr>)"
  by (simp add: runDebateFlow_v2_lists sysStdoutFull_def sys0_def fakeLLM_def rounds0_def
      llm0_def io0_def logDebate_def roundOnLists_v2_def runSingleRound_v2_eq callGenerate_def
      transcript_def renderMessage_def RoleUser_def RoleChallenger_def Let_def)

text \<open>
  Claim C6, amended. Let \<open>N\<close> be the round count of the configuration. When no call of
  the client fails, \<^verbatim>\<open>runDebateFlow\<close> of \<^verbatim>\<open>src/main.go\<close> issues exactly \<open>2N\<close> calls,
  which alternate between Challenger and Defender and begin with the Challenger, and
  returns exactly \<open>N\<close> rounds. \<^verbatim>\<open>runDebateFlow\<close> of \<^verbatim>\<open>src/unnamed/part_000\<close> does the
  same when, in addition, no write of \<^verbatim>\<open>logDebate\<close> to standard output fails.
\<close>

theorem C6_calls_and_rounds:
  assumes "\<forall>before q. \<not> isl (client1 before q)"
    and "\<forall>before q. \<not> isl (client2 before q)"
    and "\<forall>out text. printErr sys out text = None"
  shows "(\<exists>rounds new.
            runDebateFlow_v1 client1 claim config llm s1
              = (Inr rounds, s1\<lparr>calls := calls s1 @ new\<rparr>)
            \<and> length rounds = nat (Rounds config) \<and> length new = 2 * nat (Rounds config)
            \<and> alternating_v1 llm new)
       \<and> (\<exists>rounds new out.
            runDebateFlow_v2 sys client2 claim config llm s2
              = (Inr rounds, s2\<lparr>calls := calls s2 @ new, stdout := stdout s2 @ out\<rparr>)
            \<and> length rounds = nat (Rounds config) \<and> length new = 2 * nat (Rounds config)
            \<and> alternating_v2 llm new)"
  using runDebateFlow_v1_never_fails [OF assms(1), of claim config llm s1]
    runDebateFlow_v2_never_fails [OF assms(2,3), of claim config llm s2]
  by blast

theorem C6_calls_and_rounds_witness:
  "(\<exists>rounds new.
       runDebateFlow_v1 fakeLLM ''c'' (rounds0 2) llm0 io0
         = (Inr rounds, io0\<lparr>calls := calls io0 @ new\<rparr>)
       \<and> length rounds = 2 \<and> length new = 2 * 2 \<and> alternating_v1 llm0 new)
   \<and> (\<exists>rounds new out.
       runDebateFlow_v2 sys0 fakeLLM ''c'' (rounds0 2) llm0 io0
         = (Inr rounds, io0\<lparr>calls := calls io0 @ new, stdout := stdout (io0 :: call_v2 io) @ out\<rparr>)
       \<and> length rounds = 2 \<and> length new = 2 * 2 \<and> alternating_v2 llm0 new)"
proof -
  have a1: "\<forall>before q. \<not> isl ((fakeLLM :: call_v1 client) before q)"
    by (simp add: fakeLLM_def)
  have a2: "\<forall>before q. \<not> isl ((fakeLLM :: call_v2 client) before q)"
    by (simp add: fakeLLM_def)
  have b: "\<forall>out text. printErr sys0 out text = None"
    by (simp add: sys0_def)
  have c: "nat (Rounds (rounds0 2)) = 2"
    by (simp add: rounds0_def)
  from C6_calls_and_rounds [OF a1 a2 b, of "''c''" "rounds0 2" llm0 io0 io0]
  show ?thesis unfolding c .
qed

section \<open>The Ollama wrapper never returns an empty text\<close>

text \<open>
  Claim C7. In both programs \<^verbatim>\<open>Generate\<close> never returns the empty string as a result:
  whatever the model and the prompt, a reply whose chunks assemble to the empty text
  yields an error (the transport's own error when there is one, \<open>empty response\<close>
  otherwise), and every text that is returned is non-empty.
\<close>

theorem C7_empty_response_is_failure:
  "Generate_v1 api1 model prompt \<noteq> Inr []
   \<and> Generate_v2 api2 model sys prompt \<noteq> Inr []
   \<and> (concat (fst (api1 \<lparr>Model_v1 = model, Prompt_v1 = prompt\<rparr>)) = []
        \<longrightarrow> isl (Generate_v1 api1 model prompt))
   \<and> (concat (fst (api2 \<lparr>Model_v2 = model, System_v2 = sys, Prompt_v2 = prompt,
             Stream_v2 = True,
             Options_v2 = [(''temperature'', ''0.7''), (''top_p'', ''0.9''),
                           (''max_tokens'', ''150'')]\<rparr>)) = []
        \<longrightarrow> isl (Generate_v2 api2 model sys prompt))"
  by (simp add: Generate_v1_unfold Generate_v2_unfold split: option.splits)

theorem C7_empty_response_is_failure_witness:
  "isl (Generate_v1 (\<lambda>r. ([[], []], None)) ''llama3'' ''p'')
   \<and> isl (Generate_v2 (\<lambda>r. ([[], []], None)) ''llama3'' ''s'' ''p'')"
  using C7_empty_response_is_failure
    [of "\<lambda>r. ([[], []], None)" "''llama3''" "''p''" "\<lambda>r. ([[], []], None)" "''s''"]
  by simp

section \<open>How the instruction and the transcript reach the client\<close>

text \<open>
  Claim C8, as stated, fails on \<^verbatim>\<open>src/main.go\<close>: its \<^verbatim>\<open>runSingleRound\<close> sends one
  string that holds the instruction, a line feed and the transcript. The call below is the
  one of \<^verbatim>\<open>TestRunSingleRound_AssemblesPromptAndUsesParams\<close>.
\<close>

theorem C8_counterexample:
  "calls (snd (runSingleRound_v1 fakeLLM ''model-x'' ''sys-y''
      [\<lparr>Role = RoleUser, Content = ''claim''\<rparr>, \<lparr>Role = RoleChallenger, Content = ''c1''\<rparr>]
      RoleChallenger io0))
   = [\<lparr>model_v1 = ''model-x'',
       prompt_v1 = ''sys-y'' @ nl @ ''user: claim'' @ nl @ ''challenger: c1'' @ nl\<rparr>]"
  by (simp add: runSingleRound_v1_def callGenerate_def io0_def RoleUser_def RoleChallenger_def
      Let_def)

text \<open>
  Claim C8, amended. In \<^verbatim>\<open>src/unnamed/part_000\<close> every \<^verbatim>\<open>runSingleRound\<close> issues one call
  whose system field is the instruction and whose prompt field is the transcript of the
  context, the two kept apart. In \<^verbatim>\<open>src/main.go\<close>, whose client has a single prompt
  field, it issues one call whose prompt is the instruction, a line feed and the
  transcript in one string.
\<close>

theorem C8_instruction_and_transcript:
  "calls (snd (runSingleRound_v2 client model instruction history s)) =
     calls s @ [\<lparr>model_v2 = model, system_v2 = instruction, prompt_v2 = transcript history\<rparr>]
   \<and> calls (snd (runSingleRound_v1 client1 model instruction history role s1)) =
     calls s1 @ [\<lparr>model_v1 = model, prompt_v1 = instruction @ nl @ transcript history\<rparr>]"
  by (simp add: runSingleRound_v1_eq runSingleRound_v2_eq callGenerate_def)

section \<open>The summarizer\<close>

text \<open>
  Claim C9. For a debate of \<open>N\<close> rounds the text assembled by \<^verbatim>\<open>summarizeDebate\<close> is the
  concatenation of exactly \<open>N\<close> blocks, one per round and in the order of the rounds;
  the block of the round at position \<open>k\<close>, counted from 1, starts with the header
  \<open>### Round k\<close>, holds the challenger and the defender text of that round and ends with
  an empty line. In both programs the summarizer then issues exactly one call, over that
  text.
\<close>

theorem C9_summary_serialization:
  "summaryText 0 debate [] =
     concat (map2 (\<lambda>k r. ''### Round '' @ decimal k @ nl @ ''Challenger: '' @ Challenger r @ nl
                    @ ''Defender: '' @ Defender r @ nl @ nl) [1 ..< Suc (length debate)] debate)
   \<and> length (zip [1 ..< Suc (length debate)] debate) = length debate
   \<and> calls (snd (summarizeDebate_v2 client2 debate model s2)) =
       calls s2 @ [\<lparr>model_v2 = model, system_v2 = summaryInstruction,
                    prompt_v2 = ''system: '' @ summaryText 0 debate [] @ nl\<rparr>]
   \<and> calls (snd (summarizeDebate_v1 client1 debate model s1)) =
       calls s1 @ [\<lparr>model_v1 = model,
                    prompt_v1 = summaryInstruction @ nl @ ''system: '' @ summaryText 0 debate [] @ nl\<rparr>]"
proof -
  have a: "summaryText 0 debate [] =
     concat (map2 (\<lambda>k r. ''### Round '' @ decimal k @ nl @ ''Challenger: '' @ Challenger r @ nl
                    @ ''Defender: '' @ Defender r @ nl @ nl) [1 ..< Suc (length debate)] debate)"
    using summaryText_acc [of 0 debate "[]"] by (simp del: upt_Suc)
  have b: "length (zip [1 ..< Suc (length debate)] debate) = length debate"
    by (simp del: upt_Suc)
  have c: "calls (snd (summarizeDebate_v2 client2 debate model s2)) =
       calls s2 @ [\<lparr>model_v2 = model, system_v2 = summaryInstruction,
                    prompt_v2 = ''system: '' @ summaryText 0 debate [] @ nl\<rparr>]"
    by (simp add: summarizeDebate_v2_def runSingleRound_v2_eq callGenerate_def transcript_def
        renderMessage_def RoleSystem_def)
  have d: "calls (snd (summarizeDebate_v1 client1 debate model s1)) =
       calls s1 @ [\<lparr>model_v1 = model,
                    prompt_v1 = summaryInstruction @ nl @ ''system: '' @ summaryText 0 debate [] @ nl\<rparr>]"
    by (simp add: summarizeDebate_v1_def runSingleRound_v1_eq callGenerate_def transcript_def
        renderMessage_def RoleSystem_def)
  from a b c d show ?thesis by blast
qed


section \<open>The estimate of the round count\<close>

text \<open>
  Claim C10, as stated, fails on both programs: the quotient is not the floor of
  \<open>budget / t1\<close>. With a budget of \<open>300ms\<close> and a trial round measured at 100
  milliseconds, \<^verbatim>\<open>total.Seconds()\<close> is the \<^verbatim>\<open>float64\<close> nearest to 0.3 and
  \<^verbatim>\<open>elapsed.Seconds()\<close> the one nearest to 0.1; their quotient in \<^verbatim>\<open>float64\<close> is
  2.9999999999999996, which \<^verbatim>\<open>int\<close> cuts to 2, where the floor of 300 ms / 100 ms is 3.
\<close>

theorem C10_counterexample:
  "parseDuration sys300ms ''300ms'' = Inr 300000000
   \<and> trialElapsed sys300ms = 100000000
   \<and> secondsQuotient sys300ms 300000000 100000000 = 2
   \<and> float64Quotient 300000000 100000000 = Some 2
   \<and> fst (estimateRounds_v1 sys300ms fakeLLM ''the claim'' llm0 ''300ms'' io0) = Inr 2
   \<and> fst (estimateRounds_v2 sys300ms fakeLLM ''the claim'' llm0 ''300ms'' io0) = Inr 2
   \<and> max 1 (300000000 div 100000000) = (3 :: int)"
proof -
  have q: "float64Quotient 300000000 100000000 = Some 2" by code_simp
  have p: "parseDuration sys300ms ''300ms'' = Inr 300000000"
    by (simp add: sys300ms_def)
  have t: "trialElapsed sys300ms = 100000000" by (simp add: sys300ms_def)
  have g: "secondsQuotient sys300ms 300000000 100000000 = 2"
    by (simp add: sys300ms_def sys0_def goQuotient_def q)
  have pr: "\<forall>out text. printErr sys300ms out text = None"
    by (simp add: sys300ms_def sys0_def)
  have a1: "\<forall>before q. \<not> isl ((fakeLLM :: call_v1 client) before q)"
    by (rule fakeLLM_never_fails)
  have a2: "\<forall>before q. \<not> isl ((fakeLLM :: call_v2 client) before q)"
    by (rule fakeLLM_never_fails)
  from runDebateFlow_v1_never_fails [OF a1, of "''the claim''"
      "\<lparr>Rounds = 1, Duration = [], InputFile = [], OutputFile = []\<rparr>" llm0 io0]
  obtain trial1 u1 where t1: "runDebateFlow_v1 fakeLLM ''the claim''
      \<lparr>Rounds = 1, Duration = [], InputFile = [], OutputFile = []\<rparr> llm0 io0
        = (Inr trial1, u1)"
    by auto
  from runDebateFlow_v2_never_fails [OF a2 pr, of "''the claim''"
      "\<lparr>Rounds = 1, Duration = [], InputFile = [], OutputFile = []\<rparr>" llm0 io0]
  obtain trial2 u2 where t2: "runDebateFlow_v2 sys300ms fakeLLM ''the claim''
      \<lparr>Rounds = 1, Duration = [], InputFile = [], OutputFile = []\<rparr> llm0 io0
        = (Inr trial2, u2)"
    by auto
  have e1: "fst (estimateRounds_v1 sys300ms fakeLLM ''the claim'' llm0 ''300ms'' io0) = Inr 2"
    using estimateRounds_v1_result [OF t1 p] by (simp add: t g)
  have e2: "fst (estimateRounds_v2 sys300ms fakeLLM ''the claim'' llm0 ''300ms'' io0) = Inr 2"
    using estimateRounds_v2_result [OF t2 p] by (simp add: t g)
  show ?thesis
    using p t g q e1 e2 by simp
qed

text \<open>
  Claim C10, amended. Let the environment compute in binary64, the budget parse, and no
  call and no write to the standard output fail. Then \<^verbatim>\<open>estimateRounds\<close> runs exactly
  one trial round, the two calls of the run with a round count of 1, and writes no
  file. It returns the quotient \<^verbatim>\<open>total.Seconds() / elapsed.Seconds()\<close> of \<^verbatim>\<open>float64\<close>,
  cut to an integer and raised to 1 when it is less, wherever the language gives that
  quotient a value; the rounds of the trial run have no part in the result. In
  \<^verbatim>\<open>src/unnamed/part_000\<close> a measured time that is not positive counts as one
  millisecond. When the budget and the measured time \<open>t1\<close> are whole numbers of seconds
  and \<open>t1\<close> divides the budget, the result is the floor of \<open>budget / t1\<close> raised to 1 when
  it is less; a budget of two minutes with a trial round of 20 seconds yields 6.
\<close>

theorem C10_estimate:
  assumes env: "binary64 sys"
    and p: "parseDuration sys d = Inr budget"
    and ok1: "\<forall>before q. \<not> isl (client1 before q)"
    and ok2: "\<forall>before q. \<not> isl (client2 before q)"
    and pr: "\<forall>out text. printErr sys out text = None"
  shows "(\<forall>q. float64Quotient budget (trialElapsed sys) = Some q
            \<longrightarrow> fst (estimateRounds_v1 sys client1 claim llm d s1) = Inr (max 1 q))
       \<and> (\<forall>q. float64Quotient budget
                 (if trialElapsed sys \<le> 0 then 1000000 else trialElapsed sys) = Some q
            \<longrightarrow> fst (estimateRounds_v2 sys client2 claim llm d s2) = Inr (max 1 q))
       \<and> (\<forall>B T. 0 \<le> B \<and> B < 2 ^ 53 \<and> 0 < T \<and> T < 2 ^ 53 \<and> T dvd B
                 \<and> budget = B * 1000000000 \<and> trialElapsed sys = T * 1000000000
            \<longrightarrow> fst (estimateRounds_v1 sys client1 claim llm d s1) = Inr (max 1 (B div T))
                \<and> fst (estimateRounds_v2 sys client2 claim llm d s2) = Inr (max 1 (B div T)))
       \<and> calls (snd (estimateRounds_v1 sys client1 claim llm d s1))
           = calls (snd (runDebateFlow_v1 client1 claim
                \<lparr>Rounds = 1, Duration = [], InputFile = [], OutputFile = []\<rparr> llm s1))
       \<and> length (calls (snd (estimateRounds_v1 sys client1 claim llm d s1)))
           = length (calls s1) + 2
       \<and> files (snd (estimateRounds_v1 sys client1 claim llm d s1)) = files s1
       \<and> calls (snd (estimateRounds_v2 sys client2 claim llm d s2))
           = calls (snd (runDebateFlow_v2 sys client2 claim
                \<lparr>Rounds = 1, Duration = [], InputFile = [], OutputFile = []\<rparr> llm s2))
       \<and> length (calls (snd (estimateRounds_v2 sys client2 claim llm d s2)))
           = length (calls s2) + 2
       \<and> files (snd (estimateRounds_v2 sys client2 claim llm d s2)) = files s2"
proof -
  from runDebateFlow_v1_never_fails [OF ok1, of claim
      "\<lparr>Rounds = 1, Duration = [], InputFile = [], OutputFile = []\<rparr>" llm s1]
  obtain trial1 new1 where t1: "runDebateFlow_v1 client1 claim
      \<lparr>Rounds = 1, Duration = [], InputFile = [], OutputFile = []\<rparr> llm s1
        = (Inr trial1, s1\<lparr>calls := calls s1 @ new1\<rparr>)" and n1: "length new1 = 2"
    by auto
  from runDebateFlow_v2_never_fails [OF ok2 pr, of claim
      "\<lparr>Rounds = 1, Duration = [], InputFile = [], OutputFile = []\<rparr>" llm s2]
  obtain trial2 new2 out2 where t2: "runDebateFlow_v2 sys client2 claim
      \<lparr>Rounds = 1, Duration = [], InputFile = [], OutputFile = []\<rparr> llm s2
        = (Inr trial2, s2\<lparr>calls := calls s2 @ new2, stdout := stdout s2 @ out2\<rparr>)"
    and n2: "length new2 = 2"
    by auto
  have r1: "fst (estimateRounds_v1 sys client1 claim llm d s1)
      = Inr (max 1 (secondsQuotient sys budget (trialElapsed sys)))"
    by (rule estimateRounds_v1_result [OF t1 p])
  have r2: "fst (estimateRounds_v2 sys client2 claim llm d s2)
      = Inr (max 1 (secondsQuotient sys budget
                (if trialElapsed sys \<le> 0 then 1000000 else trialElapsed sys)))"
    by (rule estimateRounds_v2_result [OF t2 p])
  have q: "\<And>a b q. float64Quotient a b = Some q \<Longrightarrow> secondsQuotient sys a b = q"
    using env by (simp add: binary64_def)
  have A: "\<forall>q. float64Quotient budget (trialElapsed sys) = Some q
            \<longrightarrow> fst (estimateRounds_v1 sys client1 claim llm d s1) = Inr (max 1 q)"
    using r1 q by simp
  have B: "\<forall>q. float64Quotient budget
                 (if trialElapsed sys \<le> 0 then 1000000 else trialElapsed sys) = Some q
            \<longrightarrow> fst (estimateRounds_v2 sys client2 claim llm d s2) = Inr (max 1 q)"
    using r2 q by simp
  have C: "\<forall>B T. 0 \<le> B \<and> B < 2 ^ 53 \<and> 0 < T \<and> T < 2 ^ 53 \<and> T dvd B
                 \<and> budget = B * 1000000000 \<and> trialElapsed sys = T * 1000000000
            \<longrightarrow> fst (estimateRounds_v1 sys client1 claim llm d s1) = Inr (max 1 (B div T))
                \<and> fst (estimateRounds_v2 sys client2 claim llm d s2) = Inr (max 1 (B div T))"
  proof (intro allI impI)
    fix B T :: int
    assume h: "0 \<le> B \<and> B < 2 ^ 53 \<and> 0 < T \<and> T < 2 ^ 53 \<and> T dvd B
                 \<and> budget = B * 1000000000 \<and> trialElapsed sys = T * 1000000000"
    then have f: "float64Quotient budget (trialElapsed sys) = Some (B div T)"
      using float64Quotient_whole [of B T] by simp
    have pos: "\<not> trialElapsed sys \<le> 0" using h by simp
    from q [OF f] r1 r2 pos
    show "fst (estimateRounds_v1 sys client1 claim llm d s1) = Inr (max 1 (B div T))
        \<and> fst (estimateRounds_v2 sys client2 claim llm d s2) = Inr (max 1 (B div T))"
      by simp
  qed
  have D1: "calls (snd (estimateRounds_v1 sys client1 claim llm d s1))
           = calls (snd (runDebateFlow_v1 client1 claim
                \<lparr>Rounds = 1, Duration = [], InputFile = [], OutputFile = []\<rparr> llm s1))"
    "length (calls (snd (estimateRounds_v1 sys client1 claim llm d s1))) = length (calls s1) + 2"
    "files (snd (estimateRounds_v1 sys client1 claim llm d s1)) = files s1"
    using p n1 by (simp_all add: estimateRounds_v1_def t1 Let_def)
  have D2: "calls (snd (estimateRounds_v2 sys client2 claim llm d s2))
           = calls (snd (runDebateFlow_v2 sys client2 claim
                \<lparr>Rounds = 1, Duration = [], InputFile = [], OutputFile = []\<rparr> llm s2))"
    "length (calls (snd (estimateRounds_v2 sys client2 claim llm d s2))) = length (calls s2) + 2"
    "files (snd (estimateRounds_v2 sys client2 claim llm d s2)) = files s2"
    using p n2 by (simp_all add: estimateRounds_v2_def t2 Let_def)
  from A B C D1 D2 show ?thesis by blast
qed

theorem C10_estimate_witness:
  "binary64 sys0 \<and> parseDuration sys0 ''2m'' = Inr 120000000000
   \<and> trialElapsed sys0 = 20000000000
   \<and> float64Quotient 120000000000 20000000000 = Some 6
   \<and> fst (estimateRounds_v1 sys0 fakeLLM ''the claim'' llm0 ''2m'' io0) = Inr 6
   \<and> fst (estimateRounds_v2 sys0 fakeLLM ''the claim'' llm0 ''2m'' io0) = Inr 6
   \<and> length (calls (snd (estimateRounds_v1 sys0 fakeLLM ''the claim'' llm0 ''2m'' io0))) = 2
   \<and> length (calls (snd (estimateRounds_v2 sys0 fakeLLM ''the claim'' llm0 ''2m'' io0))) = 2"
proof -
  have p: "parseDuration sys0 ''2m'' = Inr 120000000000" by (simp add: sys0_def)
  have t: "trialElapsed sys0 = 20000000000" by (simp add: sys0_def)
  have a1: "\<forall>before q. \<not> isl ((fakeLLM :: call_v1 client) before q)"
    by (rule fakeLLM_never_fails)
  have a2: "\<forall>before q. \<not> isl ((fakeLLM :: call_v2 client) before q)"
    by (rule fakeLLM_never_fails)
  have f: "float64Quotient 120000000000 20000000000 = Some 6"
    using float64Quotient_whole [of 120 20] by simp
  note all = C10_estimate [OF binary64_sys0 p a1 a2 sys0_prints,
      of "''the claim''" llm0 io0 io0]
  from all have "\<forall>q. float64Quotient 120000000000 (trialElapsed sys0) = Some q
      \<longrightarrow> fst (estimateRounds_v1 sys0 fakeLLM ''the claim'' llm0 ''2m'' io0) = Inr (max 1 q)"
    by blast
  with f t have e1: "fst (estimateRounds_v1 sys0 fakeLLM ''the claim'' llm0 ''2m'' io0) = Inr 6"
    by simp
  from all have "\<forall>B T. 0 \<le> B \<and> B < 2 ^ 53 \<and> 0 < T \<and> T < 2 ^ 53 \<and> T dvd B
                 \<and> 120000000000 = B * 1000000000 \<and> trialElapsed sys0 = T * 1000000000
            \<longrightarrow> fst (estimateRounds_v1 sys0 fakeLLM ''the claim'' llm0 ''2m'' io0)
                  = Inr (max 1 (B div T))
                \<and> fst (estimateRounds_v2 sys0 fakeLLM ''the claim'' llm0 ''2m'' io0)
                  = Inr (max 1 (B div T))"
    by blast
  from this [rule_format, of 120 20] t
  have e2: "fst (estimateRounds_v2 sys0 fakeLLM ''the claim'' llm0 ''2m'' io0) = Inr 6"
    by simp
  from all have
    "length (calls (snd (estimateRounds_v1 sys0 fakeLLM ''the claim'' llm0 ''2m'' io0)))
       = length (calls (io0 :: call_v1 io)) + 2"
    "length (calls (snd (estimateRounds_v2 sys0 fakeLLM ''the claim'' llm0 ''2m'' io0)))
       = length (calls (io0 :: call_v2 io)) + 2"
    by blast+
  then have n:
    "length (calls (snd (estimateRounds_v1 sys0 fakeLLM ''the claim'' llm0 ''2m'' io0))) = 2"
    "length (calls (snd (estimateRounds_v2 sys0 fakeLLM ''the claim'' llm0 ''2m'' io0))) = 2"
    by (simp_all add: io0_def)
  show ?thesis
    using binary64_sys0 p t f e1 e2 n by simp
qed
end
